theory Spec2Isabelle
  imports Main "HOL-Library.Word"
begin

section \<open>Machine integers\<close>

text \<open>
  The target is an AVR (Arduino Mega 2560): \<open>uint8_t\<close> is an 8-bit word, \<open>uint32_t\<close>
  and \<open>unsigned long\<close> are 32-bit words, and arithmetic on them wraps around.
\<close>

type_synonym u8 = "8 word"
type_synonym u32 = "32 word"

section \<open>TaskScheduler\<close>

text \<open>
  \<open>TaskContext_t\<close> of TaskScheduler.h. The task function \<open>void (*funcPtr)()\<close> acts on
  the program state outside the task table, of type \<open>'w\<close>; the task table is a separate
  argument of the scheduler, which the actions of this repository never touch.
\<close>

record 'w TaskContext_t =
  funcPtr :: "'w \<Rightarrow> 'w"
  period :: u32
  offset :: u32
  nextRun :: u32

text \<open>\<open>UINT32_MAX\<close>, the initial value of \<open>earliest\<close>.\<close>

abbreviation UINT32_MAX :: u32 where
  "UINT32_MAX \<equiv> 0xFFFFFFFF"

text \<open>
  The assignment \<open>chosen = i\<close> converts the \<open>uint8_t\<close> loop index to \<open>int8_t\<close>:
  indices from 128 on become negative.
\<close>

definition int8_of_uint8 :: "nat \<Rightarrow> int" where
  "int8_of_uint8 i = (if i < 128 then int i else int i - 256)"

text \<open>
  One iteration of the \<open>for\<close> loop of \<open>schedulerRun\<close>, at index \<open>i\<close>, on the pair
  of the locals \<open>chosen\<close> and \<open>earliest\<close>.
\<close>

definition scanStep :: "u32 \<Rightarrow> 'w TaskContext_t list \<Rightarrow> int \<times> u32 \<Rightarrow> nat \<Rightarrow> int \<times> u32" where
  "scanStep now tasks ce i =
     (if nextRun (tasks ! i) \<le> now then
        (if nextRun (tasks ! i) < snd ce then (int8_of_uint8 i, nextRun (tasks ! i)) else ce)
      else ce)"

text \<open>The whole loop, from \<open>chosen = -1\<close> and \<open>earliest = UINT32_MAX\<close>.\<close>

definition schedulerScan :: "u32 \<Rightarrow> 'w TaskContext_t list \<Rightarrow> u8 \<Rightarrow> int \<times> u32" where
  "schedulerScan now tasks count = foldl (scanStep now tasks) (-1, UINT32_MAX) [0..<unat count]"

definition schedulerChosen :: "u32 \<Rightarrow> 'w TaskContext_t list \<Rightarrow> u8 \<Rightarrow> int" where
  "schedulerChosen now tasks count = fst (schedulerScan now tasks count)"

text \<open>
  \<open>schedulerInit\<close>: one reading \<open>now\<close> of \<open>millis()\<close>. Reading past the end of the
  array is undefined behaviour in C; the model returns \<open>None\<close> there.
\<close>

definition schedulerInit ::
  "u32 \<Rightarrow> 'w TaskContext_t list \<Rightarrow> u8 \<Rightarrow> 'w TaskContext_t list option" where
  "schedulerInit now tasks count =
     (if length tasks < unat count then None
      else Some (foldl (\<lambda>ts i. ts[i := (ts ! i)\<lparr>nextRun := now + offset (ts ! i)\<rparr>])
                  tasks [0..<unat count]))"

text \<open>
  \<open>schedulerRun\<close>. The function reads \<open>millis()\<close> three times: \<open>now\<close> before the scan,
  \<open>t1\<close> in the comparison after the action has run, and \<open>t2\<close> in the re-anchoring
  assignment. The three readings are arguments of the model.
\<close>

definition schedulerRun ::
  "u32 \<Rightarrow> u32 \<Rightarrow> u32 \<Rightarrow> 'w TaskContext_t list \<Rightarrow> u8 \<Rightarrow> 'w \<Rightarrow> ('w TaskContext_t list \<times> 'w) option" where
  "schedulerRun now t1 t2 tasks count w =
     (if length tasks < unat count then None
      else
        let chosen = schedulerChosen now tasks count in
        if 0 \<le> chosen then
          let c = nat chosen;
              w' = funcPtr (tasks ! c) w;
              advanced = nextRun (tasks ! c) + period (tasks ! c);
              anchored = (if advanced < t1 then t2 + period (tasks ! c) else advanced)
          in Some (tasks[c := (tasks ! c)\<lparr>nextRun := anchored\<rparr>], w')
        else Some (tasks, w))"

section \<open>Lab 2.1: shared state\<close>

datatype ButtonState_e = BTN_IDLE | BTN_DEBOUNCE_DOWN | BTN_PRESSED | BTN_DEBOUNCE_UP

text \<open>
  One call of \<open>printf\<close>: the format string and its arguments, \<open>%lu\<close> taking an
  \<open>unsigned long\<close> and \<open>%u\<close> an \<open>unsigned\<close> (16 bits on the AVR).
\<close>

datatype printf_arg = ArgUL u32 | ArgU "16 word"

datatype printf_call = Printf string "printf_arg list"

text \<open>
  The file-scope variables of lab2_1_main.cpp, the levels last written to the output
  pins (\<open>pins\<close>, by pin number) and the calls of \<open>printf\<close> so far (\<open>serial\<close>).
\<close>

record globals =
  g_newPress :: bool
  g_lastPressDuration :: u32
  g_isShortPress :: bool
  g_totalPresses :: u32
  g_shortPresses :: u32
  g_longPresses :: u32
  g_totalDurationMs :: u32
  s_btnState :: ButtonState_e
  s_debounceStart :: u32
  s_pressStart :: u32
  s_pressEnd :: u32
  s_greenLedOffAt :: u32
  s_redLedOffAt :: u32
  s_blinkStepsRemaining :: u8
  s_blinkLastToggle :: u32
  s_yellowLedOn :: bool
  pins :: "u8 \<Rightarrow> bool"
  serial :: "printf_call list"

abbreviation PIN_BUTTON :: u8 where "PIN_BUTTON \<equiv> 7"
abbreviation PIN_LED_GREEN :: u8 where "PIN_LED_GREEN \<equiv> 8"
abbreviation PIN_LED_RED :: u8 where "PIN_LED_RED \<equiv> 9"
abbreviation PIN_LED_YELLOW :: u8 where "PIN_LED_YELLOW \<equiv> 10"

abbreviation SHORT_PRESS_THRESHOLD_MS :: u32 where "SHORT_PRESS_THRESHOLD_MS \<equiv> 500"
abbreviation LED_INDICATOR_DURATION_MS :: u32 where "LED_INDICATOR_DURATION_MS \<equiv> 1500"
abbreviation BLINK_HALF_PERIOD_MS :: u32 where "BLINK_HALF_PERIOD_MS \<equiv> 100"
abbreviation BLINK_STEPS_SHORT :: u8 where "BLINK_STEPS_SHORT \<equiv> 10"
abbreviation BLINK_STEPS_LONG :: u8 where "BLINK_STEPS_LONG \<equiv> 20"
abbreviation DEBOUNCE_MS :: u32 where "DEBOUNCE_MS \<equiv> 50"

text \<open>\<open>digitalWrite(pin, HIGH)\<close> is \<open>digitalWrite pin True\<close>, \<open>LOW\<close> is \<open>False\<close>.\<close>

definition digitalWrite :: "u8 \<Rightarrow> bool \<Rightarrow> globals \<Rightarrow> globals" where
  "digitalWrite pin level s = s\<lparr>pins := (pins s)(pin := level)\<rparr>"

definition printf :: "string \<Rightarrow> printf_arg list \<Rightarrow> globals \<Rightarrow> globals" where
  "printf fmt args s = s\<lparr>serial := serial s @ [Printf fmt args]\<rparr>"

text \<open>
  The static initialisers, with the three LED pins LOW as \<open>lab2_1Setup\<close> writes them
  and the log of \<open>printf\<close> calls taken from the end of \<open>lab2_1Setup\<close>.
\<close>

definition initial_globals :: globals where
  "initial_globals =
     \<lparr> g_newPress = False, g_lastPressDuration = 0, g_isShortPress = False,
       g_totalPresses = 0, g_shortPresses = 0, g_longPresses = 0, g_totalDurationMs = 0,
       s_btnState = BTN_IDLE, s_debounceStart = 0, s_pressStart = 0, s_pressEnd = 0,
       s_greenLedOffAt = 0, s_redLedOffAt = 0,
       s_blinkStepsRemaining = 0, s_blinkLastToggle = 0, s_yellowLedOn = False,
       pins = (\<lambda>_. False), serial = [] \<rparr>"

section \<open>Lab 2.1: Task 1, button and indicator LEDs\<close>

text \<open>
  The \<open>switch\<close> of \<open>task1ButtonAndLed\<close>. \<open>now\<close> is the reading of \<open>millis()\<close> and
  \<open>btnLow\<close> that of \<open>digitalRead(PIN_BUTTON) == LOW\<close> at the head of the task.
\<close>

definition task1FsmUpdate :: "u32 \<Rightarrow> bool \<Rightarrow> globals \<Rightarrow> globals" where
  "task1FsmUpdate now btnLow s =
     (case s_btnState s of
        BTN_IDLE \<Rightarrow>
          if btnLow then s\<lparr>s_debounceStart := now, s_btnState := BTN_DEBOUNCE_DOWN\<rparr> else s
      | BTN_DEBOUNCE_DOWN \<Rightarrow>
          if \<not> btnLow then s\<lparr>s_btnState := BTN_IDLE\<rparr>
          else if DEBOUNCE_MS \<le> now - s_debounceStart s
            then s\<lparr>s_pressStart := now, s_btnState := BTN_PRESSED\<rparr>
          else s
      | BTN_PRESSED \<Rightarrow>
          if \<not> btnLow
            then s\<lparr>s_pressEnd := now, s_debounceStart := now, s_btnState := BTN_DEBOUNCE_UP\<rparr>
          else s
      | BTN_DEBOUNCE_UP \<Rightarrow>
          if btnLow then s\<lparr>s_btnState := BTN_PRESSED\<rparr>
          else if DEBOUNCE_MS \<le> now - s_debounceStart s then
            (let duration = s_pressEnd s - s_pressStart s;
                 s1 = s\<lparr>g_lastPressDuration := duration,
                        g_isShortPress := (duration < SHORT_PRESS_THRESHOLD_MS),
                        g_newPress := True\<rparr>;
                 s2 = (if g_isShortPress s1
                       then (digitalWrite PIN_LED_GREEN True s1)
                              \<lparr>s_greenLedOffAt := now + LED_INDICATOR_DURATION_MS\<rparr>
                       else (digitalWrite PIN_LED_RED True s1)
                              \<lparr>s_redLedOffAt := now + LED_INDICATOR_DURATION_MS\<rparr>)
             in s2\<lparr>s_btnState := BTN_IDLE\<rparr>)
          else s)"

text \<open>The two \<open>if\<close> statements that switch the indicator LEDs off, in source order.\<close>

definition task1LedAutoOff :: "u32 \<Rightarrow> globals \<Rightarrow> globals" where
  "task1LedAutoOff now s =
     (let s1 = (if s_greenLedOffAt s \<noteq> 0 \<and> s_greenLedOffAt s \<le> now
                then (digitalWrite PIN_LED_GREEN False s)\<lparr>s_greenLedOffAt := 0\<rparr> else s)
      in if s_redLedOffAt s1 \<noteq> 0 \<and> s_redLedOffAt s1 \<le> now
         then (digitalWrite PIN_LED_RED False s1)\<lparr>s_redLedOffAt := 0\<rparr> else s1)"

definition task1ButtonAndLed :: "u32 \<Rightarrow> bool \<Rightarrow> globals \<Rightarrow> globals" where
  "task1ButtonAndLed now btnLow s = task1LedAutoOff now (task1FsmUpdate now btnLow s)"

section \<open>Lab 2.1: Task 2, statistics and blink sequencer\<close>

text \<open>The block \<open>if (g_newPress) { ... }\<close> of \<open>task2StatisticsAndBlink\<close>.\<close>

definition task2Consume :: "u32 \<Rightarrow> globals \<Rightarrow> globals" where
  "task2Consume now s =
     (if g_newPress s then
        (let s1 = s\<lparr>g_newPress := False\<rparr>;
             s2 = s1\<lparr>g_totalPresses := g_totalPresses s1 + 1\<rparr>;
             s3 = s2\<lparr>g_totalDurationMs := g_totalDurationMs s2 + g_lastPressDuration s2\<rparr>;
             s4 = (if g_isShortPress s3
                   then s3\<lparr>g_shortPresses := g_shortPresses s3 + 1,
                           s_blinkStepsRemaining := BLINK_STEPS_SHORT\<rparr>
                   else s3\<lparr>g_longPresses := g_longPresses s3 + 1,
                           s_blinkStepsRemaining := BLINK_STEPS_LONG\<rparr>)
         in (digitalWrite PIN_LED_YELLOW True s4)
              \<lparr>s_yellowLedOn := True, s_blinkLastToggle := now\<rparr>)
      else s)"

text \<open>The block \<open>if (s_blinkStepsRemaining > 0) { ... }\<close>.\<close>

definition task2Blink :: "u32 \<Rightarrow> globals \<Rightarrow> globals" where
  "task2Blink now s =
     (if 0 < s_blinkStepsRemaining s then
        (if BLINK_HALF_PERIOD_MS \<le> now - s_blinkLastToggle s then
           (let s1 = s\<lparr>s_yellowLedOn := \<not> s_yellowLedOn s\<rparr>;
                s2 = digitalWrite PIN_LED_YELLOW (s_yellowLedOn s1) s1;
                s3 = s2\<lparr>s_blinkLastToggle := now\<rparr>;
                s4 = s3\<lparr>s_blinkStepsRemaining := s_blinkStepsRemaining s3 - 1\<rparr>
            in if s_blinkStepsRemaining s4 = 0
               then (digitalWrite PIN_LED_YELLOW False s4)\<lparr>s_yellowLedOn := False\<rparr>
               else s4)
         else s)
      else s)"

definition task2StatisticsAndBlink :: "u32 \<Rightarrow> globals \<Rightarrow> globals" where
  "task2StatisticsAndBlink now s = task2Blink now (task2Consume now s)"

section \<open>Lab 2.1: Task 3, periodic report\<close>

abbreviation CRLF :: string where
  "CRLF \<equiv> [CHR 0x0D, CHR 0x0A]"

definition task3PeriodicReport :: "globals \<Rightarrow> globals" where
  "task3PeriodicReport s =
     (let total = g_totalPresses s;
          shorts = g_shortPresses s;
          longs = g_longPresses s;
          totalMs = g_totalDurationMs s;
          avgMs = (if 0 < total then totalMs div total else 0);
          s1 = printf (CRLF @ ''===== [10s Report] ====='' @ CRLF) [] s;
          s2 = printf (''Total presses    : %lu'' @ CRLF) [ArgUL total] s1;
          s3 = printf (''Short presses    : %lu  (< %u ms)'' @ CRLF)
                 [ArgUL shorts, ArgU (ucast SHORT_PRESS_THRESHOLD_MS)] s2;
          s4 = printf (''Long presses     : %lu  (>= %u ms)'' @ CRLF)
                 [ArgUL longs, ArgU (ucast SHORT_PRESS_THRESHOLD_MS)] s3;
          s5 = printf (''Average duration : %lu ms'' @ CRLF) [ArgUL avgMs] s4;
          s6 = printf (''========================'' @ CRLF) [] s5
      in s6\<lparr>g_totalPresses := 0, g_shortPresses := 0, g_longPresses := 0,
             g_totalDurationMs := 0\<rparr>)"

section \<open>Lab 2.1: executions of the tasks\<close>

text \<open>
  One execution of a task by the scheduler, with what the task reads from the hardware:
  the clock for tasks 1 and 2, the button level for task 1.
\<close>

datatype task_run = Run1 u32 bool | Run2 u32 | Run3

fun exec :: "globals \<Rightarrow> task_run \<Rightarrow> globals" where
  "exec s (Run1 now btnLow) = task1ButtonAndLed now btnLow s"
| "exec s (Run2 now) = task2StatisticsAndBlink now s"
| "exec s Run3 = task3PeriodicReport s"

definition execAll :: "globals \<Rightarrow> task_run list \<Rightarrow> globals" where
  "execAll s rs = foldl exec s rs"

text \<open>Successive executions of task 1 with the button read at the same level.\<close>

definition samples :: "bool \<Rightarrow> u32 list \<Rightarrow> task_run list" where
  "samples btnLow ts = map (\<lambda>t. Run1 t btnLow) ts"

text \<open>
  An execution publishes a press event when it writes \<open>true\<close> to \<open>g_newPress\<close>: run
  with the flag cleared beforehand, it leaves the flag set. Only task 1 does.
\<close>

fun publishes :: "globals \<Rightarrow> task_run \<Rightarrow> bool" where
  "publishes s (Run1 now btnLow) = g_newPress (task1ButtonAndLed now btnLow (s\<lparr>g_newPress := False\<rparr>))"
| "publishes s (Run2 now) = False"
| "publishes s Run3 = False"

fun publishCount :: "globals \<Rightarrow> task_run list \<Rightarrow> nat" where
  "publishCount s [] = 0"
| "publishCount s (r # rs) = (if publishes s r then 1 else 0) + publishCount (exec s r) rs"

text \<open>The states the button FSM enters along a list of executions, in order.\<close>

fun fsmPath :: "globals \<Rightarrow> task_run list \<Rightarrow> ButtonState_e list" where
  "fsmPath s [] = []"
| "fsmPath s (r # rs) =
     (if s_btnState (exec s r) = s_btnState s then [] else [s_btnState (exec s r)])
       @ fsmPath (exec s r) rs"

text \<open>The yellow LED is off: the flag of the sequencer and the level of the pin.\<close>

definition yellowOff :: "globals \<Rightarrow> bool" where
  "yellowOff s = (\<not> s_yellowLedOn s \<and> \<not> pins s PIN_LED_YELLOW)"

text \<open>Two complete press cycles of 300 ms and 700 ms, as task 1 samples them.\<close>

definition shortPressRuns :: "task_run list" where
  "shortPressRuns = [Run1 0 True, Run1 50 True, Run1 350 False, Run1 400 False]"

definition longPressRuns :: "task_run list" where
  "longPressRuns = [Run1 410 True, Run1 460 True, Run1 1160 False, Run1 1210 False]"

text \<open>
  The sequencer armed with an odd number of steps and the LED on, and three executions
  of task 2 that each find the half period elapsed.
\<close>

definition armedWithThree :: globals where
  "armedWithThree =
     initial_globals\<lparr>s_blinkStepsRemaining := 3, s_yellowLedOn := True,
       pins := (\<lambda>_. False)(PIN_LED_YELLOW := True)\<rparr>"

definition threeToggles :: "task_run list" where
  "threeToggles = [Run2 100, Run2 200, Run2 300]"

text \<open>
  A short press, its consumption by task 2 (which arms ten steps) and ten executions of
  task 2 a half period apart.
\<close>

definition shortPressBlink :: "task_run list" where
  "shortPressBlink =
     shortPressRuns @
     [Run2 420, Run2 520, Run2 620, Run2 720, Run2 820, Run2 920, Run2 1020, Run2 1120,
      Run2 1220, Run2 1320, Run2 1420]"

text \<open>
  Sample times of a press held for 360 ms and then released, and of a glitch of 20 ms
  (task 1 runs every 10 ms).
\<close>

definition heldLow :: "u32 list" where
  "heldLow = [0, 10, 20, 30, 40, 50, 60]"

definition heldHigh :: "u32 list" where
  "heldHigh = [360, 370, 380, 390, 400, 410, 420]"

definition glitchLow :: "u32 list" where
  "glitchLow = [1000, 1010, 1020]"

section \<open>Earliest deadline first\<close>

text \<open>
  What the header of the scheduler promises of the selection, in its words: task \<open>k\<close>
  among the first \<open>n\<close> is due, no due task has an earlier deadline, and every due task
  before it in the array has a later one.
\<close>

definition isEarliestDue :: "u32 \<Rightarrow> 'w TaskContext_t list \<Rightarrow> nat \<Rightarrow> nat \<Rightarrow> bool" where
  "isEarliestDue now tasks n k =
     (k < n \<and> nextRun (tasks ! k) \<le> now
      \<and> (\<forall>j<n. nextRun (tasks ! j) \<le> now \<longrightarrow> nextRun (tasks ! k) \<le> nextRun (tasks ! j))
      \<and> (\<forall>j<k. nextRun (tasks ! j) \<le> now \<longrightarrow> nextRun (tasks ! k) < nextRun (tasks ! j)))"

text \<open>
  Task tables for the examples. The state outside the table is the list of the tasks
  executed so far: task \<open>k\<close> appends \<open>k\<close>. The periods and offsets of \<open>demoTasks\<close> are
  those of lab2_1_main.cpp.
\<close>

definition demoTasks :: "nat list TaskContext_t list" where
  "demoTasks =
     [\<lparr>funcPtr = (\<lambda>w. w @ [1]), period = 10, offset = 0, nextRun = 100\<rparr>,
      \<lparr>funcPtr = (\<lambda>w. w @ [2]), period = 50, offset = 5, nextRun = 95\<rparr>,
      \<lparr>funcPtr = (\<lambda>w. w @ [3]), period = 10000, offset = 2000, nextRun = 2000\<rparr>]"

definition wrapTasks :: "nat list TaskContext_t list" where
  "wrapTasks = [\<lparr>funcPtr = (\<lambda>w. w @ [1]), period = 100, offset = 0, nextRun = 0xFFFFFFF0\<rparr>]"

definition sentinelTasks :: "nat list TaskContext_t list" where
  "sentinelTasks = [\<lparr>funcPtr = (\<lambda>w. w @ [1]), period = 10, offset = 0, nextRun = UINT32_MAX\<rparr>]"

text \<open>
  A press of duration \<open>d\<close> as task 1 samples it, up to the execution that confirms the
  release, and the same press ending when the clock reads \<open>UINT32_MAX\<close>.
\<close>

definition pressOf :: "u32 \<Rightarrow> task_run list" where
  "pressOf d = [Run1 0 True, Run1 50 True, Run1 (50 + d) False]"

definition pressBeforeWrap :: "task_run list" where
  "pressBeforeWrap = [Run1 4294966695 True, Run1 4294966745 True, Run1 4294967245 False]"

text \<open>
  A press of 490 ms whose release is being debounced when the button is read LOW once
  more, at 560 ms, and HIGH again 10 ms later; and the same sample times with the button
  read HIGH at 560 ms.
\<close>

definition releaseWithGlitch :: "task_run list" where
  "releaseWithGlitch =
     [Run1 0 True, Run1 50 True, Run1 540 False, Run1 560 True, Run1 570 False, Run1 620 False]"

definition releaseWithoutGlitch :: "task_run list" where
  "releaseWithoutGlitch =
     [Run1 0 True, Run1 50 True, Run1 540 False, Run1 560 False, Run1 570 False, Run1 620 False]"

text \<open>
  A short press and a long press, each consumed by task 2 before the next one completes.
\<close>

definition twoPressesCounted :: "task_run list" where
  "twoPressesCounted = shortPressRuns @ [Run2 405] @ longPressRuns @ [Run2 1220]"

section \<open>Basic facts\<close>

lemmas task_defs = task1ButtonAndLed_def task1FsmUpdate_def task1LedAutoOff_def
  task2StatisticsAndBlink_def task2Consume_def task2Blink_def task3PeriodicReport_def
  digitalWrite_def printf_def

lemma execAll_Nil: "execAll s [] = s"
  by (simp add: execAll_def)

lemma execAll_Cons: "execAll s (r # rs) = execAll (exec s r) rs"
  by (simp add: execAll_def)

lemma execAll_append: "execAll s (rs @ rs') = execAll (execAll s rs) rs'"
  by (simp add: execAll_def)

lemma execAll_snoc: "execAll s (rs @ [r]) = exec (execAll s rs) r"
  by (simp add: execAll_def)

lemma samples_Nil: "samples b [] = []"
  by (simp add: samples_def)

lemma samples_Cons: "samples b (t # ts) = Run1 t b # samples b ts"
  by (simp add: samples_def)

text \<open>
  Task 1 writes the mailbox on exactly one path: in \<open>BTN_DEBOUNCE_UP\<close>, with the button
  read HIGH and the debounce time elapsed.
\<close>

lemma publishes_Run1:
  "publishes s (Run1 now btnLow) =
     (s_btnState s = BTN_DEBOUNCE_UP \<and> \<not> btnLow \<and> DEBOUNCE_MS \<le> now - s_debounceStart s)"
  by (simp add: task_defs Let_def split: ButtonState_e.split)

declare publishes.simps(1) [simp del]

lemma fsmPath_append: "fsmPath s (rs @ rs') = fsmPath s rs @ fsmPath (execAll s rs) rs'"
  by (induction rs arbitrary: s) (simp_all add: execAll_Nil execAll_Cons)

lemma publishCount_append:
  "publishCount s (rs @ rs') = publishCount s rs + publishCount (execAll s rs) rs'"
  by (induction rs arbitrary: s) (simp_all add: execAll_Nil execAll_Cons)

section \<open>The reporter\<close>

text \<open>
  C6. Every run of the reporter prints the average \<open>totalDurationMs / totalPresses\<close>
  in unsigned integer division, and 0 when \<open>totalPresses\<close> is 0; after the run the
  four counters are 0. The log of the run is the six \<open>printf\<close> calls of the report.
\<close>

theorem task3_reports_average_and_resets:
  "serial (task3PeriodicReport s) = serial s @
     [Printf (CRLF @ ''===== [10s Report] ====='' @ CRLF) [],
      Printf (''Total presses    : %lu'' @ CRLF) [ArgUL (g_totalPresses s)],
      Printf (''Short presses    : %lu  (< %u ms)'' @ CRLF) [ArgUL (g_shortPresses s), ArgU 500],
      Printf (''Long presses     : %lu  (>= %u ms)'' @ CRLF) [ArgUL (g_longPresses s), ArgU 500],
      Printf (''Average duration : %lu ms'' @ CRLF)
        [ArgUL (if g_totalPresses s = 0 then 0 else g_totalDurationMs s div g_totalPresses s)],
      Printf (''========================'' @ CRLF) []]
   \<and> g_totalPresses (task3PeriodicReport s) = 0
   \<and> g_shortPresses (task3PeriodicReport s) = 0
   \<and> g_longPresses (task3PeriodicReport s) = 0
   \<and> g_totalDurationMs (task3PeriodicReport s) = 0"
  by (simp add: task3PeriodicReport_def printf_def Let_def word_gt_0)

text \<open>
  The two values of the specification: no press gives the average 0, and three presses
  of 900 ms in total give 300.
\<close>

theorem task3_reports_average_and_resets_witness:
  "serial (task3PeriodicReport initial_globals) ! 4
     = Printf (''Average duration : %lu ms'' @ CRLF) [ArgUL 0]
   \<and> serial (task3PeriodicReport
        (initial_globals\<lparr>g_totalPresses := 3, g_totalDurationMs := 900\<rparr>)) ! 4
     = Printf (''Average duration : %lu ms'' @ CRLF) [ArgUL 300]
   \<and> g_totalPresses (task3PeriodicReport
        (initial_globals\<lparr>g_totalPresses := 3, g_totalDurationMs := 900\<rparr>)) = 0"
proof -
  note r0 = task3_reports_average_and_resets [of initial_globals]
  note r3 = task3_reports_average_and_resets
    [of "initial_globals\<lparr>g_totalPresses := 3, g_totalDurationMs := 900\<rparr>"]
  from r0 r3 show ?thesis
    by (simp add: initial_globals_def)
qed

section \<open>The counters\<close>

lemma counters_exec:
  "g_totalPresses s = g_shortPresses s + g_longPresses s \<Longrightarrow>
   g_totalPresses (exec s r) = g_shortPresses (exec s r) + g_longPresses (exec s r)"
  by (cases r) (simp_all add: task_defs Let_def split: ButtonState_e.split)

text \<open>What each task does to the counters.\<close>

lemma task2_counts_event:
  "g_newPress s \<Longrightarrow>
     \<not> g_newPress (task2StatisticsAndBlink now s)
   \<and> g_totalPresses (task2StatisticsAndBlink now s) = g_totalPresses s + 1
   \<and> g_totalDurationMs (task2StatisticsAndBlink now s)
       = g_totalDurationMs s + g_lastPressDuration s
   \<and> g_shortPresses (task2StatisticsAndBlink now s)
       = (if g_isShortPress s then g_shortPresses s + 1 else g_shortPresses s)
   \<and> g_longPresses (task2StatisticsAndBlink now s)
       = (if g_isShortPress s then g_longPresses s else g_longPresses s + 1)"
  by (simp add: task_defs Let_def)

lemma task2_idle_keeps_counters:
  "\<not> g_newPress s \<Longrightarrow>
     g_totalPresses (task2StatisticsAndBlink now s) = g_totalPresses s
   \<and> g_totalDurationMs (task2StatisticsAndBlink now s) = g_totalDurationMs s
   \<and> g_shortPresses (task2StatisticsAndBlink now s) = g_shortPresses s
   \<and> g_longPresses (task2StatisticsAndBlink now s) = g_longPresses s"
  by (simp add: task_defs Let_def)

lemma task1_keeps_counters:
  "g_totalPresses (task1ButtonAndLed now btnLow s) = g_totalPresses s
   \<and> g_totalDurationMs (task1ButtonAndLed now btnLow s) = g_totalDurationMs s
   \<and> g_shortPresses (task1ButtonAndLed now btnLow s) = g_shortPresses s
   \<and> g_longPresses (task1ButtonAndLed now btnLow s) = g_longPresses s"
  by (cases "s_btnState s") (simp_all add: task_defs Let_def)

lemma task3_resets_counters:
  "g_totalPresses (task3PeriodicReport s) = 0
   \<and> g_shortPresses (task3PeriodicReport s) = 0
   \<and> g_longPresses (task3PeriodicReport s) = 0
   \<and> g_totalDurationMs (task3PeriodicReport s) = 0"
  by (simp add: task3PeriodicReport_def printf_def Let_def)

lemma counters_sum_invariant:
  "g_totalPresses (execAll initial_globals rs)
     = g_shortPresses (execAll initial_globals rs) + g_longPresses (execAll initial_globals rs)"
proof (induction rs rule: rev_induct)
  case Nil
  show ?case by (simp add: execAll_Nil initial_globals_def)
next
  case (snoc r rs)
  then show ?case by (simp add: execAll_snoc counters_exec)
qed

text \<open>
  C9. From the initial state, after every execution of any task (so after every
  execution of the statistics task and of the reporter), \<open>totalPresses\<close> is the sum
  of \<open>shortPresses\<close> and \<open>longPresses\<close>, in the 32-bit arithmetic of the counters.
  In any state, the statistics task that finds an event pending clears the flag and adds
  one to \<open>totalPresses\<close> and to exactly one of \<open>shortPresses\<close> (a short press) and
  \<open>longPresses\<close> (a long press), leaving the other as it is; with no event pending it
  leaves the three counters as they are, as task 1 always does; and the reporter leaves
  all the counters at 0.
\<close>

theorem counters_consistent:
  "g_totalPresses (execAll initial_globals rs)
     = g_shortPresses (execAll initial_globals rs) + g_longPresses (execAll initial_globals rs)
   \<and> (g_newPress s \<longrightarrow>
         \<not> g_newPress (task2StatisticsAndBlink now s)
       \<and> g_totalPresses (task2StatisticsAndBlink now s) = g_totalPresses s + 1
       \<and> g_shortPresses (task2StatisticsAndBlink now s)
           = (if g_isShortPress s then g_shortPresses s + 1 else g_shortPresses s)
       \<and> g_longPresses (task2StatisticsAndBlink now s)
           = (if g_isShortPress s then g_longPresses s else g_longPresses s + 1))
   \<and> (\<not> g_newPress s \<longrightarrow>
         g_totalPresses (task2StatisticsAndBlink now s) = g_totalPresses s
       \<and> g_shortPresses (task2StatisticsAndBlink now s) = g_shortPresses s
       \<and> g_longPresses (task2StatisticsAndBlink now s) = g_longPresses s)
   \<and> g_totalPresses (task1ButtonAndLed now btnLow s) = g_totalPresses s
   \<and> g_shortPresses (task1ButtonAndLed now btnLow s) = g_shortPresses s
   \<and> g_longPresses (task1ButtonAndLed now btnLow s) = g_longPresses s
   \<and> g_totalPresses (task3PeriodicReport s) = 0
   \<and> g_shortPresses (task3PeriodicReport s) = 0
   \<and> g_longPresses (task3PeriodicReport s) = 0
   \<and> g_totalDurationMs (task3PeriodicReport s) = 0"
proof -
  note inv = counters_sum_invariant [of rs]
  note t1 = task1_keeps_counters [of now btnLow s]
  note t3 = task3_resets_counters [of s]
  have consume: "g_newPress s \<longrightarrow>
         \<not> g_newPress (task2StatisticsAndBlink now s)
       \<and> g_totalPresses (task2StatisticsAndBlink now s) = g_totalPresses s + 1
       \<and> g_shortPresses (task2StatisticsAndBlink now s)
           = (if g_isShortPress s then g_shortPresses s + 1 else g_shortPresses s)
       \<and> g_longPresses (task2StatisticsAndBlink now s)
           = (if g_isShortPress s then g_longPresses s else g_longPresses s + 1)"
    using task2_counts_event [of s now] by blast
  have keep: "\<not> g_newPress s \<longrightarrow>
         g_totalPresses (task2StatisticsAndBlink now s) = g_totalPresses s
       \<and> g_shortPresses (task2StatisticsAndBlink now s) = g_shortPresses s
       \<and> g_longPresses (task2StatisticsAndBlink now s) = g_longPresses s"
    using task2_idle_keeps_counters [of s now] by blast
  from inv consume keep t1 t3 show ?thesis by blast
qed

text \<open>
  A short press consumed at 405 ms gives the counters 1, 1, 0; a long press consumed at
  1220 ms gives 2, 1, 1; an execution of task 2 with nothing pending leaves the total at
  2; the reporter then leaves 0, 0, 0.
\<close>

theorem counters_consistent_witness:
  "g_totalPresses (execAll initial_globals (shortPressRuns @ [Run2 405])) = 1
   \<and> g_shortPresses (execAll initial_globals (shortPressRuns @ [Run2 405])) = 1
   \<and> g_longPresses (execAll initial_globals (shortPressRuns @ [Run2 405])) = 0
   \<and> g_totalPresses (execAll initial_globals twoPressesCounted) = 2
   \<and> g_shortPresses (execAll initial_globals twoPressesCounted) = 1
   \<and> g_longPresses (execAll initial_globals twoPressesCounted) = 1
   \<and> g_totalPresses (execAll initial_globals (twoPressesCounted @ [Run2 1270])) = 2
   \<and> g_totalPresses (execAll initial_globals (twoPressesCounted @ [Run3])) = 0
   \<and> g_shortPresses (execAll initial_globals (twoPressesCounted @ [Run3])) = 0
   \<and> g_longPresses (execAll initial_globals (twoPressesCounted @ [Run3])) = 0"
proof -
  let ?a = "execAll initial_globals shortPressRuns"
  let ?b = "execAll initial_globals (shortPressRuns @ [Run2 405] @ longPressRuns)"
  let ?c = "execAll initial_globals twoPressesCounted"
  have a: "g_newPress ?a" "g_isShortPress ?a" "g_totalPresses ?a = 0" "g_shortPresses ?a = 0"
    "g_longPresses ?a = 0"
    by (simp_all add: execAll_def shortPressRuns_def initial_globals_def task_defs Let_def)
  have b1: "g_newPress ?b" "\<not> g_isShortPress ?b"
    by (simp_all add: execAll_def shortPressRuns_def longPressRuns_def initial_globals_def
        task_defs Let_def)
  have b2: "g_totalPresses ?b = g_totalPresses (execAll initial_globals (shortPressRuns @ [Run2 405]))"
    "g_shortPresses ?b = g_shortPresses (execAll initial_globals (shortPressRuns @ [Run2 405]))"
    "g_longPresses ?b = g_longPresses (execAll initial_globals (shortPressRuns @ [Run2 405]))"
    by (simp_all add: execAll_def shortPressRuns_def longPressRuns_def initial_globals_def
        task_defs Let_def)
  have c: "\<not> g_newPress ?c"
    by (simp add: execAll_def twoPressesCounted_def shortPressRuns_def longPressRuns_def
        initial_globals_def task_defs Let_def)
  have first: "execAll initial_globals (shortPressRuns @ [Run2 405])
      = task2StatisticsAndBlink 405 ?a"
    by (simp add: execAll_append execAll_Cons execAll_Nil)
  have second: "?c = task2StatisticsAndBlink 1220 ?b"
    by (simp add: twoPressesCounted_def execAll_def)
  have third: "execAll initial_globals (twoPressesCounted @ [Run2 1270])
      = task2StatisticsAndBlink 1270 ?c"
    "execAll initial_globals (twoPressesCounted @ [Run3]) = task3PeriodicReport ?c"
    by (simp_all add: execAll_snoc)
  from counters_consistent [of "[]" ?a 405 False] a
  have n1: "g_totalPresses (task2StatisticsAndBlink 405 ?a) = 1"
    "g_shortPresses (task2StatisticsAndBlink 405 ?a) = 1"
    "g_longPresses (task2StatisticsAndBlink 405 ?a) = 0"
    by simp_all
  from counters_consistent [of "[]" ?b 1220 False] b1 b2 n1
  have n2: "g_totalPresses (task2StatisticsAndBlink 1220 ?b) = 2"
    "g_shortPresses (task2StatisticsAndBlink 1220 ?b) = 1"
    "g_longPresses (task2StatisticsAndBlink 1220 ?b) = 1"
    by (simp_all add: first)
  from counters_consistent [of "[]" ?c 1270 False] c n2
  have n3: "g_totalPresses (task2StatisticsAndBlink 1270 ?c) = 2"
    "g_totalPresses (task3PeriodicReport ?c) = 0"
    "g_shortPresses (task3PeriodicReport ?c) = 0"
    "g_longPresses (task3PeriodicReport ?c) = 0"
    by (simp_all add: second)
  from n1 n2 n3 show ?thesis
    by (simp add: first second third)
qed

section \<open>The blink sequencer\<close>

lemma blink_exec:
  "s_blinkStepsRemaining s = 0 \<longrightarrow> yellowOff s \<Longrightarrow>
   s_blinkStepsRemaining (exec s r) = 0 \<longrightarrow> yellowOff (exec s r)"
  by (cases r)
    (simp_all add: task_defs yellowOff_def Let_def word_gt_0 split: ButtonState_e.split)

text \<open>
  C7. The blink sequence never ends with the LED on. From any state in which the
  sequencer is armed with any number of steps, even or odd, and the LED in any state (or
  in which it is idle with the LED off, as the initial state is), and along any
  executions of the three tasks: whenever \<open>stepsRemaining\<close> is 0, the flag
  \<open>s_yellowLedOn\<close> is clear and the pin of the yellow LED is LOW.
\<close>

theorem yellow_off_when_sequence_ends:
  assumes "s_blinkStepsRemaining s0 = 0 \<longrightarrow> yellowOff s0"
  shows "s_blinkStepsRemaining (execAll s0 rs) = 0 \<longrightarrow> yellowOff (execAll s0 rs)"
proof (induction rs rule: rev_induct)
  case Nil
  from assms show ?case by (simp add: execAll_Nil)
next
  case (snoc r rs)
  then show ?case by (simp add: execAll_snoc blink_exec)
qed

text \<open>
  Both parities: three steps armed with the LED on, and the ten steps of a short press
  from the initial state. Each sequence ends with no step remaining and the LED off.
\<close>

theorem yellow_off_when_sequence_ends_witness:
  "s_blinkStepsRemaining (execAll armedWithThree threeToggles) = 0
   \<and> yellowOff (execAll armedWithThree threeToggles)
   \<and> s_blinkStepsRemaining (execAll initial_globals shortPressBlink) = 0
   \<and> yellowOff (execAll initial_globals shortPressBlink)"
proof -
  have odd_done: "s_blinkStepsRemaining (execAll armedWithThree threeToggles) = 0"
    by (simp add: execAll_def armedWithThree_def threeToggles_def initial_globals_def
        task_defs Let_def)
  have even_done: "s_blinkStepsRemaining (execAll initial_globals shortPressBlink) = 0"
    by (simp add: execAll_def shortPressBlink_def shortPressRuns_def initial_globals_def
        task_defs Let_def)
  have armed: "s_blinkStepsRemaining armedWithThree = 0 \<longrightarrow> yellowOff armedWithThree"
    by (simp add: armedWithThree_def)
  have idle: "s_blinkStepsRemaining initial_globals = 0 \<longrightarrow> yellowOff initial_globals"
    by (simp add: initial_globals_def yellowOff_def)
  from odd_done yellow_off_when_sequence_ends [OF armed, of threeToggles]
  have "yellowOff (execAll armedWithThree threeToggles)" by simp
  moreover from even_done yellow_off_when_sequence_ends [OF idle, of shortPressBlink]
  have "yellowOff (execAll initial_globals shortPressBlink)" by simp
  ultimately show ?thesis using odd_done even_done by simp
qed

section \<open>The button FSM\<close>

text \<open>Single executions of task 1, by state and button level.\<close>

lemma step_idle_low:
  "s_btnState s = BTN_IDLE \<Longrightarrow>
   s_btnState (task1ButtonAndLed now True s) = BTN_DEBOUNCE_DOWN \<and>
   s_debounceStart (task1ButtonAndLed now True s) = now"
  by (simp add: task_defs Let_def)

lemma step_idle_high:
  "s_btnState s = BTN_IDLE \<Longrightarrow>
   s_btnState (task1ButtonAndLed now False s) = BTN_IDLE \<and>
   g_newPress (task1ButtonAndLed now False s) = g_newPress s \<and>
   g_lastPressDuration (task1ButtonAndLed now False s) = g_lastPressDuration s \<and>
   g_isShortPress (task1ButtonAndLed now False s) = g_isShortPress s \<and>
   s_pressStart (task1ButtonAndLed now False s) = s_pressStart s \<and>
   s_pressEnd (task1ButtonAndLed now False s) = s_pressEnd s"
  by (simp add: task_defs Let_def)

lemma step_down_wait:
  "s_btnState s = BTN_DEBOUNCE_DOWN \<Longrightarrow> \<not> DEBOUNCE_MS \<le> now - s_debounceStart s \<Longrightarrow>
   s_btnState (task1ButtonAndLed now True s) = BTN_DEBOUNCE_DOWN \<and>
   s_debounceStart (task1ButtonAndLed now True s) = s_debounceStart s"
  by (simp add: task_defs Let_def)

lemma step_down_confirm:
  "s_btnState s = BTN_DEBOUNCE_DOWN \<Longrightarrow> DEBOUNCE_MS \<le> now - s_debounceStart s \<Longrightarrow>
   s_btnState (task1ButtonAndLed now True s) = BTN_PRESSED \<and>
   s_pressStart (task1ButtonAndLed now True s) = now"
  by (simp add: task_defs Let_def)

lemma step_pressed_low:
  "s_btnState s = BTN_PRESSED \<Longrightarrow>
   s_btnState (task1ButtonAndLed now True s) = BTN_PRESSED \<and>
   s_pressStart (task1ButtonAndLed now True s) = s_pressStart s"
  by (simp add: task_defs Let_def)

lemma step_pressed_high:
  "s_btnState s = BTN_PRESSED \<Longrightarrow>
   s_btnState (task1ButtonAndLed now False s) = BTN_DEBOUNCE_UP \<and>
   s_pressStart (task1ButtonAndLed now False s) = s_pressStart s \<and>
   s_pressEnd (task1ButtonAndLed now False s) = now \<and>
   s_debounceStart (task1ButtonAndLed now False s) = now"
  by (simp add: task_defs Let_def)

lemma step_up_wait:
  "s_btnState s = BTN_DEBOUNCE_UP \<Longrightarrow> \<not> DEBOUNCE_MS \<le> now - s_debounceStart s \<Longrightarrow>
   s_btnState (task1ButtonAndLed now False s) = BTN_DEBOUNCE_UP \<and>
   s_debounceStart (task1ButtonAndLed now False s) = s_debounceStart s \<and>
   s_pressStart (task1ButtonAndLed now False s) = s_pressStart s \<and>
   s_pressEnd (task1ButtonAndLed now False s) = s_pressEnd s"
  by (simp add: task_defs Let_def)

lemma step_up_confirm:
  "s_btnState s = BTN_DEBOUNCE_UP \<Longrightarrow> DEBOUNCE_MS \<le> now - s_debounceStart s \<Longrightarrow>
   s_btnState (task1ButtonAndLed now False s) = BTN_IDLE \<and>
   g_newPress (task1ButtonAndLed now False s) \<and>
   g_lastPressDuration (task1ButtonAndLed now False s) = s_pressEnd s - s_pressStart s \<and>
   g_isShortPress (task1ButtonAndLed now False s)
     = (s_pressEnd s - s_pressStart s < SHORT_PRESS_THRESHOLD_MS) \<and>
   s_pressStart (task1ButtonAndLed now False s) = s_pressStart s \<and>
   s_pressEnd (task1ButtonAndLed now False s) = s_pressEnd s"
  by (simp add: task_defs Let_def)

text \<open>Executions of task 1 with the button level constant, by starting state.\<close>

lemma phase_idle_high:
  "s_btnState s = BTN_IDLE \<Longrightarrow>
   s_btnState (execAll s (samples False us)) = BTN_IDLE \<and>
   g_newPress (execAll s (samples False us)) = g_newPress s \<and>
   g_lastPressDuration (execAll s (samples False us)) = g_lastPressDuration s \<and>
   g_isShortPress (execAll s (samples False us)) = g_isShortPress s \<and>
   s_pressStart (execAll s (samples False us)) = s_pressStart s \<and>
   s_pressEnd (execAll s (samples False us)) = s_pressEnd s \<and>
   fsmPath s (samples False us) = [] \<and> publishCount s (samples False us) = 0"
proof (induction us arbitrary: s)
  case Nil
  then show ?case by (simp add: samples_Nil execAll_Nil)
next
  case (Cons u us)
  note st = step_idle_high [OF Cons.prems, of u]
  from st have idle: "s_btnState (task1ButtonAndLed u False s) = BTN_IDLE" by simp
  from Cons.IH [OF idle] st Cons.prems show ?case
    by (simp add: samples_Cons execAll_Cons publishes_Run1)
qed

lemma phase_pressed_low:
  "s_btnState s = BTN_PRESSED \<Longrightarrow>
   s_btnState (execAll s (samples True ts)) = BTN_PRESSED \<and>
   s_pressStart (execAll s (samples True ts)) = s_pressStart s \<and>
   fsmPath s (samples True ts) = [] \<and> publishCount s (samples True ts) = 0"
proof (induction ts arbitrary: s)
  case Nil
  then show ?case by (simp add: samples_Nil execAll_Nil)
next
  case (Cons t ts)
  note st = step_pressed_low [OF Cons.prems, of t]
  from st have pr: "s_btnState (task1ButtonAndLed t True s) = BTN_PRESSED" by simp
  from Cons.IH [OF pr] st Cons.prems show ?case
    by (simp add: samples_Cons execAll_Cons publishes_Run1)
qed

lemma phase_down:
  "s_btnState s = BTN_DEBOUNCE_DOWN \<Longrightarrow>
   find (\<lambda>t. DEBOUNCE_MS \<le> t - s_debounceStart s) ts = Some tp \<Longrightarrow>
   s_btnState (execAll s (samples True ts)) = BTN_PRESSED \<and>
   s_pressStart (execAll s (samples True ts)) = tp \<and>
   fsmPath s (samples True ts) = [BTN_PRESSED] \<and> publishCount s (samples True ts) = 0"
proof (induction ts arbitrary: s)
  case Nil
  then show ?case by simp
next
  case (Cons t ts)
  show ?case
  proof (cases "DEBOUNCE_MS \<le> t - s_debounceStart s")
    case True
    with Cons.prems have tp: "tp = t" by simp
    note st = step_down_confirm [OF Cons.prems(1) True]
    from st have pr: "s_btnState (task1ButtonAndLed t True s) = BTN_PRESSED" by simp
    from phase_pressed_low [OF pr, of ts] st Cons.prems(1) tp show ?thesis
      by (simp add: samples_Cons execAll_Cons publishes_Run1)
  next
    case False
    note st = step_down_wait [OF Cons.prems(1) False]
    from st have dd: "s_btnState (task1ButtonAndLed t True s) = BTN_DEBOUNCE_DOWN" by simp
    from Cons.prems(2) False st
    have fd: "find (\<lambda>x. DEBOUNCE_MS \<le> x - s_debounceStart (task1ButtonAndLed t True s)) ts = Some tp"
      by simp
    from Cons.IH [OF dd fd] st Cons.prems(1) show ?thesis
      by (simp add: samples_Cons execAll_Cons publishes_Run1)
  qed
qed

lemma phase_up:
  "s_btnState s = BTN_DEBOUNCE_UP \<Longrightarrow>
   find (\<lambda>t. DEBOUNCE_MS \<le> t - s_debounceStart s) us = Some tc \<Longrightarrow>
   s_btnState (execAll s (samples False us)) = BTN_IDLE \<and>
   g_newPress (execAll s (samples False us)) \<and>
   g_lastPressDuration (execAll s (samples False us)) = s_pressEnd s - s_pressStart s \<and>
   g_isShortPress (execAll s (samples False us))
     = (s_pressEnd s - s_pressStart s < SHORT_PRESS_THRESHOLD_MS) \<and>
   s_pressStart (execAll s (samples False us)) = s_pressStart s \<and>
   s_pressEnd (execAll s (samples False us)) = s_pressEnd s \<and>
   fsmPath s (samples False us) = [BTN_IDLE] \<and> publishCount s (samples False us) = 1"
proof (induction us arbitrary: s)
  case Nil
  then show ?case by simp
next
  case (Cons u us)
  show ?case
  proof (cases "DEBOUNCE_MS \<le> u - s_debounceStart s")
    case True
    note st = step_up_confirm [OF Cons.prems(1) True]
    from st have idle: "s_btnState (task1ButtonAndLed u False s) = BTN_IDLE" by simp
    from phase_idle_high [OF idle, of us] st Cons.prems(1) True show ?thesis
      by (simp add: samples_Cons execAll_Cons publishes_Run1)
  next
    case False
    note st = step_up_wait [OF Cons.prems(1) False]
    from st have du: "s_btnState (task1ButtonAndLed u False s) = BTN_DEBOUNCE_UP" by simp
    from Cons.prems(2) False st
    have fd: "find (\<lambda>x. DEBOUNCE_MS \<le> x - s_debounceStart (task1ButtonAndLed u False s)) us = Some tc"
      by simp
    from Cons.IH [OF du fd] st Cons.prems(1) False show ?thesis
      by (simp add: samples_Cons execAll_Cons publishes_Run1)
  qed
qed

lemma find_last_down:
  assumes "ts \<noteq> []" "P (last ts)"
  shows "\<exists>x. find P ts = Some x"
  using assms by (cases "find P ts") (auto simp: find_None_iff)

lemma find_in_set: "find P ts = Some x \<Longrightarrow> x \<in> set ts \<and> P x"
  by (auto simp: find_Some_iff)

text \<open>
  C3. The button read LOW at the sample times \<open>lows\<close>, which span at least
  \<open>DEBOUNCE_MS\<close>, and then HIGH at the sample times \<open>highs\<close>, which span at least
  \<open>DEBOUNCE_MS\<close>: from \<open>BTN_IDLE\<close> the FSM goes through \<open>BTN_DEBOUNCE_DOWN\<close>,
  \<open>BTN_PRESSED\<close>, \<open>BTN_DEBOUNCE_UP\<close> and back to \<open>BTN_IDLE\<close>, and publishes
  exactly one press event. Its duration is the time of the first HIGH sample (the
  provisional release, \<open>s_pressEnd\<close>) minus the time \<open>tp\<close> of the first LOW sample at
  least \<open>DEBOUNCE_MS\<close> after the first one (the confirmed press, \<open>s_pressStart\<close>). The
  difference is an unsigned 32-bit value, so never negative; when the sample times do
  not decrease, the confirmed press is not after the release and the duration is their
  difference as numbers.
\<close>

theorem press_cycle_publishes_once:
  assumes idle: "s_btnState s = BTN_IDLE"
    and lows: "lows \<noteq> []" and highs: "highs \<noteq> []"
    and held: "DEBOUNCE_MS \<le> last lows - hd lows"
    and released: "DEBOUNCE_MS \<le> last highs - hd highs"
  shows "fsmPath s (samples True lows @ samples False highs)
           = [BTN_DEBOUNCE_DOWN, BTN_PRESSED, BTN_DEBOUNCE_UP, BTN_IDLE]
       \<and> publishCount s (samples True lows @ samples False highs) = 1
       \<and> (\<exists>tp. find (\<lambda>t. DEBOUNCE_MS \<le> t - hd lows) lows = Some tp
            \<and> s_pressStart (execAll s (samples True lows @ samples False highs)) = tp
            \<and> s_pressEnd (execAll s (samples True lows @ samples False highs)) = hd highs
            \<and> g_newPress (execAll s (samples True lows @ samples False highs))
            \<and> g_lastPressDuration (execAll s (samples True lows @ samples False highs))
                 = hd highs - tp
            \<and> 0 \<le> g_lastPressDuration (execAll s (samples True lows @ samples False highs))
            \<and> (sorted (map unat (lows @ highs)) \<longrightarrow>
                 unat tp \<le> unat (hd highs) \<and>
                 unat (g_lastPressDuration (execAll s (samples True lows @ samples False highs)))
                   = unat (hd highs) - unat tp))"
proof -
  from lows obtain t0 ts where L: "lows = t0 # ts" by (cases lows) auto
  from highs obtain u0 us where H: "highs = u0 # us" by (cases highs) auto
  define s1 where "s1 = task1ButtonAndLed t0 True s"
  define s2 where "s2 = execAll s1 (samples True ts)"
  define s3 where "s3 = task1ButtonAndLed u0 False s2"
  define s4 where "s4 = execAll s3 (samples False us)"
  note a1 = step_idle_low [OF idle, of t0, folded s1_def]
  from held L have ts: "ts \<noteq> []" by (cases ts) auto
  with held L have "DEBOUNCE_MS \<le> last ts - t0" by simp
  with ts obtain tp where tp: "find (\<lambda>t. DEBOUNCE_MS \<le> t - t0) ts = Some tp"
    using find_last_down [of ts "\<lambda>t. DEBOUNCE_MS \<le> t - t0"] by auto
  from a1 tp have tp1: "find (\<lambda>t. DEBOUNCE_MS \<le> t - s_debounceStart s1) ts = Some tp" by simp
  from a1 have dd: "s_btnState s1 = BTN_DEBOUNCE_DOWN" by simp
  note a2 = phase_down [OF dd tp1, folded s2_def]
  from a2 have pr: "s_btnState s2 = BTN_PRESSED" by simp
  note a3 = step_pressed_high [OF pr, of u0, folded s3_def]
  from released H have us: "us \<noteq> []" by (cases us) auto
  with released H have "DEBOUNCE_MS \<le> last us - u0" by simp
  with us obtain tc where "find (\<lambda>t. DEBOUNCE_MS \<le> t - u0) us = Some tc"
    using find_last_down [of us "\<lambda>t. DEBOUNCE_MS \<le> t - u0"] by auto
  with a3 have tc: "find (\<lambda>t. DEBOUNCE_MS \<le> t - s_debounceStart s3) us = Some tc" by simp
  from a3 have du: "s_btnState s3 = BTN_DEBOUNCE_UP" by simp
  note a4 = phase_up [OF du tc, folded s4_def]
  have fin: "execAll s (samples True lows @ samples False highs) = s4"
    by (simp add: L H samples_Cons execAll_append execAll_Cons s1_def s2_def s3_def s4_def)
  have path: "fsmPath s (samples True lows @ samples False highs)
           = [BTN_DEBOUNCE_DOWN, BTN_PRESSED, BTN_DEBOUNCE_UP, BTN_IDLE]"
    using a1 a2 a3 a4 idle
    by (simp add: L H samples_Cons fsmPath_append execAll_Cons
        s1_def [symmetric] s2_def [symmetric] s3_def [symmetric] s4_def [symmetric])
  have cnt: "publishCount s (samples True lows @ samples False highs) = 1"
    using a1 a2 a3 a4 idle
    by (simp add: L H samples_Cons publishCount_append execAll_Cons publishes_Run1
        s1_def [symmetric] s2_def [symmetric] s3_def [symmetric] s4_def [symmetric])
  have fnd: "find (\<lambda>t. DEBOUNCE_MS \<le> t - hd lows) lows = Some tp"
    using tp by (simp add: L)
  have dur: "g_lastPressDuration s4 = hd highs - tp" "s_pressStart s4 = tp"
    "s_pressEnd s4 = hd highs" "g_newPress s4"
    using a2 a3 a4 by (simp_all add: H)
  have mono: "unat tp \<le> unat (hd highs) \<and> unat (hd highs - tp) = unat (hd highs) - unat tp"
    if srt: "sorted (map unat (lows @ highs))"
  proof -
    from find_in_set [OF tp] have "tp \<in> set lows" by (simp add: L)
    with srt have le: "unat tp \<le> unat (hd highs)"
      by (auto simp: H sorted_append)
    then have "tp \<le> hd highs" by (simp add: word_le_nat_alt)
    then have "unat (hd highs - tp) = unat (hd highs) - unat tp" by (rule unat_sub)
    with le show ?thesis by simp
  qed
  from path cnt fnd dur mono show ?thesis by (simp add: fin)
qed

text \<open>
  A press sampled LOW from 0 to 60 ms and HIGH from 360 to 420 ms: the press is confirmed
  at 50 ms, the release is recorded at 360 ms, and the one event has the duration 310 ms.
\<close>

theorem press_cycle_publishes_once_witness:
  "fsmPath initial_globals (samples True heldLow @ samples False heldHigh)
           = [BTN_DEBOUNCE_DOWN, BTN_PRESSED, BTN_DEBOUNCE_UP, BTN_IDLE]
   \<and> publishCount initial_globals (samples True heldLow @ samples False heldHigh) = 1
   \<and> s_pressStart (execAll initial_globals (samples True heldLow @ samples False heldHigh)) = 50
   \<and> s_pressEnd (execAll initial_globals (samples True heldLow @ samples False heldHigh)) = 360
   \<and> g_newPress (execAll initial_globals (samples True heldLow @ samples False heldHigh))
   \<and> unat (g_lastPressDuration (execAll initial_globals (samples True heldLow @ samples False heldHigh))) = 310"
proof -
  have idle: "s_btnState initial_globals = BTN_IDLE" by (simp add: initial_globals_def)
  have ne: "heldLow \<noteq> []" "heldHigh \<noteq> []" by (simp_all add: heldLow_def heldHigh_def)
  have held: "DEBOUNCE_MS \<le> last heldLow - hd heldLow" by (simp add: heldLow_def)
  have rel: "DEBOUNCE_MS \<le> last heldHigh - hd heldHigh" by (simp add: heldHigh_def)
  have fnd: "find (\<lambda>t. DEBOUNCE_MS \<le> t - hd heldLow) heldLow = Some 50"
    by (simp add: heldLow_def)
  have srt: "sorted (map unat (heldLow @ heldHigh))" by (simp add: heldLow_def heldHigh_def)
  have hd: "hd heldHigh = 360" by (simp add: heldHigh_def)
  from press_cycle_publishes_once [OF idle ne held rel] fnd srt hd show ?thesis by simp
qed

section \<open>Glitches\<close>

text \<open>
  While the debounce time has not elapsed, task 1 in \<open>BTN_DEBOUNCE_DOWN\<close> with the button
  LOW does what it does in \<open>BTN_IDLE\<close> with the button HIGH.
\<close>

lemma glitch_step:
  assumes "s_btnState q = BTN_IDLE" and "\<not> DEBOUNCE_MS \<le> t - t0"
  shows "task1ButtonAndLed t True (q\<lparr>s_debounceStart := t0, s_btnState := BTN_DEBOUNCE_DOWN\<rparr>)
           = (task1ButtonAndLed t False q)\<lparr>s_debounceStart := t0, s_btnState := BTN_DEBOUNCE_DOWN\<rparr>
         \<and> s_btnState (task1ButtonAndLed t False q) = BTN_IDLE"
  using assms by (simp add: task_defs Let_def)

lemma glitch_phase:
  assumes "s_btnState q = BTN_IDLE" and "\<forall>t\<in>set ts. t - t0 < DEBOUNCE_MS"
  shows "execAll (q\<lparr>s_debounceStart := t0, s_btnState := BTN_DEBOUNCE_DOWN\<rparr>) (samples True ts)
           = (execAll q (samples False ts))\<lparr>s_debounceStart := t0, s_btnState := BTN_DEBOUNCE_DOWN\<rparr>
         \<and> s_btnState (execAll q (samples False ts)) = BTN_IDLE
         \<and> fsmPath (q\<lparr>s_debounceStart := t0, s_btnState := BTN_DEBOUNCE_DOWN\<rparr>) (samples True ts) = []
         \<and> publishCount (q\<lparr>s_debounceStart := t0, s_btnState := BTN_DEBOUNCE_DOWN\<rparr>) (samples True ts) = 0"
  using assms
proof (induction ts arbitrary: q)
  case Nil
  then show ?case by (simp add: samples_Nil execAll_Nil)
next
  case (Cons t ts)
  from Cons.prems have lt: "\<not> DEBOUNCE_MS \<le> t - t0" by (simp only: not_le list.set insert_iff ball_simps)
  note st = glitch_step [OF Cons.prems(1) lt]
  from Cons.prems have rest: "\<forall>t\<in>set ts. t - t0 < DEBOUNCE_MS" by simp
  note ih = Cons.IH [OF conjunct2 [OF st] rest]
  from ih st show ?case
    by (simp add: samples_Cons execAll_Cons publishes_Run1)
qed

lemma idle_low_is_marked_high:
  assumes "s_btnState s = BTN_IDLE"
  shows "task1ButtonAndLed t True s
           = (task1ButtonAndLed t False s)\<lparr>s_debounceStart := t, s_btnState := BTN_DEBOUNCE_DOWN\<rparr>
         \<and> s_btnState (task1ButtonAndLed t False s) = BTN_IDLE"
  using assms by (simp add: task_defs Let_def)

lemma glitch_end:
  assumes "s_btnState q = BTN_IDLE"
  shows "task1ButtonAndLed u False (q\<lparr>s_debounceStart := t0, s_btnState := BTN_DEBOUNCE_DOWN\<rparr>)
           = (task1ButtonAndLed u False q)\<lparr>s_debounceStart := t0\<rparr>"
  using assms by (simp add: task_defs Let_def) 


lemma flag_kept_step:
  "\<not> publishes s (Run1 t b) \<Longrightarrow> g_newPress (task1ButtonAndLed t b s) = g_newPress s"
  by (cases "s_btnState s"; cases b; simp add: publishes_Run1 task_defs Let_def)

lemma samples_append: "samples b (ts @ us) = samples b ts @ samples b us"
  by (simp add: samples_def)

lemma flag_kept:
  "publishCount s rs = 0 \<Longrightarrow> \<forall>r\<in>set rs. \<exists>t b. r = Run1 t b \<Longrightarrow>
   g_newPress (execAll s (take n rs)) = g_newPress s"
proof (induction rs arbitrary: s n)
  case Nil
  then show ?case by (simp add: execAll_Nil)
next
  case (Cons r rs)
  from Cons.prems(2) obtain t b where r: "r = Run1 t b" by auto
  from Cons.prems(1) have np: "\<not> publishes s (Run1 t b)" and rest: "publishCount (exec s r) rs = 0"
    by (simp_all add: r split: if_splits)
  show ?case
  proof (cases n)
    case 0
    then show ?thesis by (simp add: execAll_Nil)
  next
    case (Suc m)
    from Cons.prems(2) have "\<forall>r\<in>set rs. \<exists>t b. r = Run1 t b" by simp
    from Cons.IH [OF rest this, of m] flag_kept_step [OF np] show ?thesis
      by (simp add: Suc execAll_Cons r)
  qed
qed

text \<open>
  C4, amended. A LOW pulse that begins while the FSM is in \<open>BTN_IDLE\<close> and returns HIGH
  before \<open>DEBOUNCE_MS\<close> has elapsed is absorbed. The
  button is read LOW at the sample times \<open>lows\<close>, each less than \<open>DEBOUNCE_MS\<close> after the
  first, and then HIGH at \<open>u\<close>: from \<open>BTN_IDLE\<close> the FSM enters \<open>BTN_DEBOUNCE_DOWN\<close>
  and reverts to \<open>BTN_IDLE\<close>, no execution publishes an event, \<open>g_newPress\<close> keeps its
  value throughout, and the final state is the one reached with the button read HIGH
  at all these times, but for \<open>s_debounceStart\<close>: counters, pins and LED timers are
  what they would be without the pulse.
\<close>

theorem glitch_absorbed:
  assumes idle: "s_btnState s = BTN_IDLE"
    and lows: "lows \<noteq> []"
    and short: "\<forall>t\<in>set lows. t - hd lows < DEBOUNCE_MS"
  shows "fsmPath s (samples True lows @ [Run1 u False]) = [BTN_DEBOUNCE_DOWN, BTN_IDLE]
       \<and> publishCount s (samples True lows @ [Run1 u False]) = 0
       \<and> (\<forall>n. g_newPress (execAll s (take n (samples True lows @ [Run1 u False]))) = g_newPress s)
       \<and> execAll s (samples True lows @ [Run1 u False])
           = (execAll s (samples False (lows @ [u])))\<lparr>s_debounceStart := hd lows\<rparr>"
proof -
  from lows obtain t0 ts where L: "lows = t0 # ts" by (cases lows) auto
  define q1 where "q1 = task1ButtonAndLed t0 False s"
  define q2 where "q2 = execAll q1 (samples False ts)"
  define m1 where "m1 = q1\<lparr>s_debounceStart := t0, s_btnState := BTN_DEBOUNCE_DOWN\<rparr>"
  note a1 = idle_low_is_marked_high [OF idle, of t0, folded q1_def, folded m1_def]
  from a1 have q1: "s_btnState q1 = BTN_IDLE" by simp
  from short L have rest: "\<forall>t\<in>set ts. t - t0 < DEBOUNCE_MS" by simp
  note a2 = glitch_phase [OF q1 rest, folded q2_def, folded m1_def]
  from a2 have q2: "s_btnState q2 = BTN_IDLE" by simp
  note a3 = glitch_end [OF q2, of u t0]
  have m1: "s_btnState m1 = BTN_DEBOUNCE_DOWN" by (simp add: m1_def)
  have fin: "execAll s (samples True lows @ [Run1 u False])
           = (execAll s (samples False (lows @ [u])))\<lparr>s_debounceStart := hd lows\<rparr>"
    using a1 a2 a3
    by (simp add: L samples_Cons samples_Nil samples_append execAll_append execAll_Cons
        execAll_Nil q1_def [symmetric] q2_def [symmetric])
  have path: "fsmPath s (samples True lows @ [Run1 u False]) = [BTN_DEBOUNCE_DOWN, BTN_IDLE]"
    using a1 a2 a3 idle m1 q2 step_idle_high [OF q2, of u]
    by (simp add: L samples_Cons fsmPath_append execAll_Cons)
  have cnt: "publishCount s (samples True lows @ [Run1 u False]) = 0"
    using a1 a2 a3 idle m1
    by (simp add: L samples_Cons publishCount_append execAll_Cons publishes_Run1)
  have runs: "\<forall>r\<in>set (samples True lows @ [Run1 u False]). \<exists>t b. r = Run1 t b"
    by (auto simp: samples_def)
  from flag_kept [OF cnt runs] path cnt fin show ?thesis by simp
qed

text \<open>
  A glitch of 20 ms from the initial state, and the same glitch while the green LED is lit
  with its timer running out at 1015 ms: the LED goes off as it would without the glitch.
\<close>

theorem glitch_absorbed_witness:
  "fsmPath initial_globals (samples True glitchLow @ [Run1 1030 False])
     = [BTN_DEBOUNCE_DOWN, BTN_IDLE]
   \<and> publishCount initial_globals (samples True glitchLow @ [Run1 1030 False]) = 0
   \<and> \<not> g_newPress (execAll initial_globals (samples True glitchLow @ [Run1 1030 False]))
   \<and> execAll initial_globals (samples True glitchLow @ [Run1 1030 False])
       = initial_globals\<lparr>s_debounceStart := 1000\<rparr>
   \<and> execAll (digitalWrite PIN_LED_GREEN True (initial_globals\<lparr>s_greenLedOffAt := 1015\<rparr>))
         (samples True glitchLow @ [Run1 1030 False])
       = initial_globals\<lparr>s_debounceStart := 1000\<rparr>"
proof -
  let ?lit = "digitalWrite PIN_LED_GREEN True (initial_globals\<lparr>s_greenLedOffAt := 1015\<rparr>)"
  have idle: "s_btnState initial_globals = BTN_IDLE" "s_btnState ?lit = BTN_IDLE"
    by (simp_all add: initial_globals_def digitalWrite_def)
  have ne: "glitchLow \<noteq> []" by (simp add: glitchLow_def)
  have short: "\<forall>t\<in>set glitchLow. t - hd glitchLow < DEBOUNCE_MS" by (simp add: glitchLow_def)
  have quiet: "execAll initial_globals (samples False (glitchLow @ [1030])) = initial_globals"
    by (simp add: execAll_def samples_def glitchLow_def initial_globals_def task_defs Let_def)
  have quiet_lit: "execAll ?lit (samples False (glitchLow @ [1030])) = initial_globals"
    by (simp add: execAll_def samples_def glitchLow_def initial_globals_def task_defs Let_def
        fun_upd_idem)
  have flag: "\<not> g_newPress initial_globals" by (simp add: initial_globals_def)
  have all: "take 4 (samples True glitchLow @ [Run1 1030 False])
               = samples True glitchLow @ [Run1 1030 False]"
    by (simp add: samples_def glitchLow_def)
  have hd: "hd glitchLow = 1000" by (simp add: glitchLow_def)
  note g1 = glitch_absorbed [OF idle(1) ne short, of 1030]
  note g2 = glitch_absorbed [OF idle(2) ne short, of 1030]
  from g1 have "g_newPress (execAll initial_globals
       (take 4 (samples True glitchLow @ [Run1 1030 False]))) = g_newPress initial_globals"
    by blast
  with flag all have "\<not> g_newPress (execAll initial_globals (samples True glitchLow @ [Run1 1030 False]))"
    by simp
  with g1 g2 quiet quiet_lit hd show ?thesis by simp
qed


text \<open>
  C4 as stated, of any LOW pulse, fails for a pulse that arrives while a release is being
  debounced. The press is confirmed at 50 ms and released at 540 ms; the FSM is in
  \<open>BTN_DEBOUNCE_UP\<close> when the button is read LOW at 560 ms and HIGH again at 570 ms, a
  pulse of 10 ms. The FSM goes back to \<open>BTN_PRESSED\<close> and takes 570 ms for the release:
  the event published at 620 ms is a long press of 520 ms with the red LED lit, and task 2
  counts a long press. With the button read HIGH at 560 ms the event is a short press of
  490 ms with the green LED lit, and task 2 counts a short press.
\<close>

theorem glitch_during_release_counterexample:
  "s_btnState (execAll initial_globals (take 3 releaseWithGlitch)) = BTN_DEBOUNCE_UP
   \<and> drop 3 releaseWithGlitch = [Run1 560 True, Run1 570 False, Run1 620 False]
   \<and> (570 :: u32) - 560 < DEBOUNCE_MS
   \<and> fsmPath (execAll initial_globals (take 3 releaseWithGlitch)) (drop 3 releaseWithGlitch)
       = [BTN_PRESSED, BTN_DEBOUNCE_UP, BTN_IDLE]
   \<and> g_lastPressDuration (execAll initial_globals releaseWithGlitch) = 520
   \<and> \<not> g_isShortPress (execAll initial_globals releaseWithGlitch)
   \<and> pins (execAll initial_globals releaseWithGlitch) PIN_LED_RED
   \<and> \<not> pins (execAll initial_globals releaseWithGlitch) PIN_LED_GREEN
   \<and> g_longPresses (execAll initial_globals (releaseWithGlitch @ [Run2 630])) = 1
   \<and> g_shortPresses (execAll initial_globals (releaseWithGlitch @ [Run2 630])) = 0
   \<and> g_lastPressDuration (execAll initial_globals releaseWithoutGlitch) = 490
   \<and> g_isShortPress (execAll initial_globals releaseWithoutGlitch)
   \<and> pins (execAll initial_globals releaseWithoutGlitch) PIN_LED_GREEN
   \<and> \<not> pins (execAll initial_globals releaseWithoutGlitch) PIN_LED_RED
   \<and> g_longPresses (execAll initial_globals (releaseWithoutGlitch @ [Run2 630])) = 0
   \<and> g_shortPresses (execAll initial_globals (releaseWithoutGlitch @ [Run2 630])) = 1"
  by (simp add: execAll_def releaseWithGlitch_def releaseWithoutGlitch_def initial_globals_def
      task_defs Let_def)

section \<open>The press-event mailbox\<close>

text \<open>
  C8. Task 1 publishes without looking at \<open>g_newPress\<close>. Between the executions of
  task 2 at 0 ms and at 1220 ms, task 1 completes a press of 300 ms and then one of
  700 ms. After the first, the mailbox holds the short press of 300 ms; the last execution
  of the second publishes while \<open>g_newPress\<close> is still set and replaces it by the long
  press of 700 ms. Task 1 has published twice; task 2 then counts one press, a long one, and
  the first press is lost.
\<close>

theorem mailbox_overwritten:
  "g_newPress (execAll initial_globals (Run2 0 # shortPressRuns))
   \<and> g_lastPressDuration (execAll initial_globals (Run2 0 # shortPressRuns)) = 300
   \<and> g_isShortPress (execAll initial_globals (Run2 0 # shortPressRuns))
   \<and> g_newPress (execAll initial_globals (Run2 0 # shortPressRuns @ butlast longPressRuns))
   \<and> publishes (execAll initial_globals (Run2 0 # shortPressRuns @ butlast longPressRuns))
        (last longPressRuns)
   \<and> publishCount initial_globals (Run2 0 # shortPressRuns @ longPressRuns) = 2
   \<and> g_newPress (execAll initial_globals (Run2 0 # shortPressRuns @ longPressRuns))
   \<and> g_lastPressDuration (execAll initial_globals (Run2 0 # shortPressRuns @ longPressRuns)) = 700
   \<and> \<not> g_isShortPress (execAll initial_globals (Run2 0 # shortPressRuns @ longPressRuns))
   \<and> g_totalPresses (execAll initial_globals (Run2 0 # shortPressRuns @ longPressRuns @ [Run2 1220])) = 1
   \<and> g_shortPresses (execAll initial_globals (Run2 0 # shortPressRuns @ longPressRuns @ [Run2 1220])) = 0
   \<and> g_longPresses (execAll initial_globals (Run2 0 # shortPressRuns @ longPressRuns @ [Run2 1220])) = 1
   \<and> g_totalDurationMs (execAll initial_globals (Run2 0 # shortPressRuns @ longPressRuns @ [Run2 1220])) = 700"
  by (simp add: execAll_def shortPressRuns_def longPressRuns_def initial_globals_def
      publishes_Run1 task_defs Let_def)

section \<open>Classification and indicator LEDs\<close>

lemma no_wrap_1500:
  fixes now :: u32
  assumes "now \<le> UINT32_MAX - LED_INDICATOR_DURATION_MS"
  shows "\<not> now + LED_INDICATOR_DURATION_MS \<le> now" "now + LED_INDICATOR_DURATION_MS \<noteq> 0"
proof -
  from assms have sum: "unat (now + LED_INDICATOR_DURATION_MS) = unat now + 1500"
    by (simp add: word_le_nat_alt unat_word_ariths)
  then show "\<not> now + LED_INDICATOR_DURATION_MS \<le> now"
    by (simp add: word_le_nat_alt)
  show "now + LED_INDICATOR_DURATION_MS \<noteq> 0"
  proof
    assume "now + LED_INDICATOR_DURATION_MS = 0"
    then have "unat (now + LED_INDICATOR_DURATION_MS) = 0" by simp
    with sum show False by simp
  qed
qed

text \<open>
  C5, amended. The execution of task 1 that confirms a release classifies the press as
  short exactly when its duration is below 500 ms (so 500 ms is long and 499 ms is
  short); provided \<open>now + 1500\<close> does not exceed \<open>UINT32_MAX\<close>, it leaves the green LED lit
  for a short press and the red LED lit for a long one, with the timer of that LED at
  \<open>now + 1500\<close>.
\<close>

theorem release_classified_and_indicated:
  assumes up: "s_btnState s = BTN_DEBOUNCE_UP"
    and elapsed: "DEBOUNCE_MS \<le> now - s_debounceStart s"
  shows "g_newPress (task1ButtonAndLed now False s)
     \<and> g_lastPressDuration (task1ButtonAndLed now False s) = s_pressEnd s - s_pressStart s
     \<and> g_isShortPress (task1ButtonAndLed now False s)
         = (s_pressEnd s - s_pressStart s < SHORT_PRESS_THRESHOLD_MS)
     \<and> (now \<le> UINT32_MAX - LED_INDICATOR_DURATION_MS \<longrightarrow>
          (if s_pressEnd s - s_pressStart s < SHORT_PRESS_THRESHOLD_MS
           then pins (task1ButtonAndLed now False s) PIN_LED_GREEN
              \<and> s_greenLedOffAt (task1ButtonAndLed now False s) = now + LED_INDICATOR_DURATION_MS
           else pins (task1ButtonAndLed now False s) PIN_LED_RED
              \<and> s_redLedOffAt (task1ButtonAndLed now False s) = now + LED_INDICATOR_DURATION_MS))"
proof -
  have classified: "g_newPress (task1ButtonAndLed now False s)
     \<and> g_lastPressDuration (task1ButtonAndLed now False s) = s_pressEnd s - s_pressStart s
     \<and> g_isShortPress (task1ButtonAndLed now False s)
         = (s_pressEnd s - s_pressStart s < SHORT_PRESS_THRESHOLD_MS)"
    using step_up_confirm [OF up elapsed] by simp
  have led: "if s_pressEnd s - s_pressStart s < SHORT_PRESS_THRESHOLD_MS
           then pins (task1ButtonAndLed now False s) PIN_LED_GREEN
              \<and> s_greenLedOffAt (task1ButtonAndLed now False s) = now + LED_INDICATOR_DURATION_MS
           else pins (task1ButtonAndLed now False s) PIN_LED_RED
              \<and> s_redLedOffAt (task1ButtonAndLed now False s) = now + LED_INDICATOR_DURATION_MS"
    if nowrap: "now \<le> UINT32_MAX - LED_INDICATOR_DURATION_MS"
    using up elapsed no_wrap_1500 [OF nowrap] by (simp add: task_defs Let_def)
  from classified led show ?thesis by blast
qed

text \<open>
  The boundary: a press of 500 ms is long and lights the red LED, a press of 499 ms is
  short and lights the green LED; the release is confirmed at 600 ms and the timer is set
  to 2100 ms.
\<close>

theorem release_classified_and_indicated_witness:
  "\<not> g_isShortPress (execAll initial_globals (pressOf 500 @ [Run1 600 False]))
   \<and> pins (execAll initial_globals (pressOf 500 @ [Run1 600 False])) PIN_LED_RED
   \<and> s_redLedOffAt (execAll initial_globals (pressOf 500 @ [Run1 600 False])) = 2100
   \<and> g_isShortPress (execAll initial_globals (pressOf 499 @ [Run1 600 False]))
   \<and> pins (execAll initial_globals (pressOf 499 @ [Run1 600 False])) PIN_LED_GREEN
   \<and> s_greenLedOffAt (execAll initial_globals (pressOf 499 @ [Run1 600 False])) = 2100"
proof -
  have long: "execAll initial_globals (pressOf 500)
      = initial_globals\<lparr>s_btnState := BTN_DEBOUNCE_UP, s_debounceStart := 550,
          s_pressStart := 50, s_pressEnd := 550\<rparr>"
    by (simp add: execAll_def pressOf_def initial_globals_def task_defs Let_def)
  have short: "execAll initial_globals (pressOf 499)
      = initial_globals\<lparr>s_btnState := BTN_DEBOUNCE_UP, s_debounceStart := 549,
          s_pressStart := 50, s_pressEnd := 549\<rparr>"
    by (simp add: execAll_def pressOf_def initial_globals_def task_defs Let_def)
  have nowrap: "(600 :: u32) \<le> UINT32_MAX - LED_INDICATOR_DURATION_MS" by simp
  have l: "s_btnState (execAll initial_globals (pressOf 500)) = BTN_DEBOUNCE_UP"
          "DEBOUNCE_MS \<le> 600 - s_debounceStart (execAll initial_globals (pressOf 500))"
          "s_pressEnd (execAll initial_globals (pressOf 500))
             - s_pressStart (execAll initial_globals (pressOf 500)) = 500"
    by (simp_all add: long)
  have s: "s_btnState (execAll initial_globals (pressOf 499)) = BTN_DEBOUNCE_UP"
          "DEBOUNCE_MS \<le> 600 - s_debounceStart (execAll initial_globals (pressOf 499))"
          "s_pressEnd (execAll initial_globals (pressOf 499))
             - s_pressStart (execAll initial_globals (pressOf 499)) = 499"
    by (simp_all add: short)
  from release_classified_and_indicated [OF l(1,2)]
       release_classified_and_indicated [OF s(1,2)] nowrap
  show ?thesis
    unfolding l(3) s(3) by (simp add: execAll_snoc)
qed

text \<open>
  C5 as stated fails where \<open>now + 1500\<close> wraps around. A press of 500 ms whose release
  is confirmed when the clock reads \<open>UINT32_MAX\<close>: the press is classified long and the
  red LED is written HIGH with the timer at \<open>UINT32_MAX + 1500 = 1499\<close>, which the
  auto-off code of the same execution takes for a time already past; after the execution
  the red LED is LOW and its timer is 0.
\<close>

theorem indicator_lost_at_wrap_counterexample:
  "s_btnState (execAll initial_globals pressBeforeWrap) = BTN_DEBOUNCE_UP
   \<and> DEBOUNCE_MS \<le> UINT32_MAX - s_debounceStart (execAll initial_globals pressBeforeWrap)
   \<and> s_pressEnd (execAll initial_globals pressBeforeWrap)
       - s_pressStart (execAll initial_globals pressBeforeWrap) = SHORT_PRESS_THRESHOLD_MS
   \<and> \<not> g_isShortPress (task1ButtonAndLed UINT32_MAX False (execAll initial_globals pressBeforeWrap))
   \<and> \<not> pins (task1ButtonAndLed UINT32_MAX False (execAll initial_globals pressBeforeWrap)) PIN_LED_RED
   \<and> s_redLedOffAt (task1ButtonAndLed UINT32_MAX False (execAll initial_globals pressBeforeWrap)) = 0
   \<and> UINT32_MAX + LED_INDICATOR_DURATION_MS = (1499 :: u32)"
  by (simp add: execAll_def pressBeforeWrap_def initial_globals_def task_defs Let_def)

section \<open>The scheduler\<close>

text \<open>
  \<open>schedulerInit\<close> sets the deadline of each of the first \<open>count\<close> tasks to the clock
  plus its offset, and changes nothing else.
\<close>

lemma init_loop:
  "n \<le> length tasks \<Longrightarrow>
   length (foldl (\<lambda>ts i. ts[i := (ts ! i)\<lparr>nextRun := now + offset (ts ! i)\<rparr>]) tasks [0..<n])
     = length tasks
   \<and> (\<forall>i<length tasks.
        foldl (\<lambda>ts i. ts[i := (ts ! i)\<lparr>nextRun := now + offset (ts ! i)\<rparr>]) tasks [0..<n] ! i
          = (if i < n then (tasks ! i)\<lparr>nextRun := now + offset (tasks ! i)\<rparr> else tasks ! i))"
proof (induction n)
  case 0
  then show ?case by simp
next
  case (Suc n)
  then show ?case by (auto simp: nth_list_update less_Suc_eq)
qed

lemma schedulerInit_deadlines:
  assumes "unat count \<le> length tasks"
  shows "\<exists>tasks'. schedulerInit now tasks count = Some tasks'
     \<and> length tasks' = length tasks
     \<and> (\<forall>i<length tasks.
          tasks' ! i = (if i < unat count then (tasks ! i)\<lparr>nextRun := now + offset (tasks ! i)\<rparr>
                        else tasks ! i))"
  using assms init_loop [OF assms, of now] by (simp add: schedulerInit_def)

lemma int8_of_uint8_nonneg:
  "0 \<le> int8_of_uint8 i \<Longrightarrow> i < 256 \<Longrightarrow> nat (int8_of_uint8 i) = i \<and> i < 128"
  by (simp add: int8_of_uint8_def split: if_splits)

lemma scan_upto_Suc:
  "foldl (scanStep now tasks) ce [0..<Suc n]
     = scanStep now tasks (foldl (scanStep now tasks) ce [0..<n]) n"
  by simp

lemma scan_chosen_index:
  "n \<le> 256 \<Longrightarrow>
   fst (foldl (scanStep now tasks) (-1, UINT32_MAX) [0..<n]) = -1 \<or>
   (\<exists>i<n. fst (foldl (scanStep now tasks) (-1, UINT32_MAX) [0..<n]) = int8_of_uint8 i)"
proof (induction n)
  case 0
  then show ?case by simp
next
  case (Suc n)
  then have ih: "fst (foldl (scanStep now tasks) (-1, UINT32_MAX) [0..<n]) = -1 \<or>
   (\<exists>i<n. fst (foldl (scanStep now tasks) (-1, UINT32_MAX) [0..<n]) = int8_of_uint8 i)"
    by simp
  show ?case
    unfolding scan_upto_Suc using ih
    by (auto simp: scanStep_def less_Suc_eq)
qed

lemma chosen_in_range:
  assumes "0 \<le> schedulerChosen now tasks count"
  shows "nat (schedulerChosen now tasks count) < unat count"
proof -
  have bound: "unat count \<le> 256"
    using unsigned_less [of count, where ?'a = nat] by simp
  from scan_chosen_index [OF bound, of now tasks] assms
  obtain i where i: "i < unat count" "schedulerChosen now tasks count = int8_of_uint8 i"
    by (auto simp: schedulerChosen_def schedulerScan_def)
  with bound have "i < 256" by simp
  with int8_of_uint8_nonneg [of i] assms i show ?thesis by simp
qed

text \<open>The selection on the example table at 100 ms, 1000 ms and 50 ms.\<close>

lemma demo_chosen: "schedulerChosen 100 demoTasks 3 = 1" "schedulerChosen 1000 demoTasks 3 = 1"
  "schedulerChosen 50 demoTasks 3 = -1"
  by code_simp+

text \<open>
  C10. The scheduler writes nothing but the \<open>nextRun\<close> of the selected task. When
  \<open>count\<close> does not exceed the length of the table the call returns; the table keeps its
  length; \<open>funcPtr\<close>, \<open>period\<close> and \<open>offset\<close> of every task are unchanged; every task
  other than the selected one is unchanged; when none is selected the table and the state
  outside it are unchanged; and the selected index lies below \<open>count\<close>.
\<close>

theorem schedulerRun_frame:
  assumes "unat count \<le> length tasks"
  shows "\<exists>tasks' w'. schedulerRun now t1 t2 tasks count w = Some (tasks', w')
     \<and> length tasks' = length tasks
     \<and> (\<forall>j<length tasks.
           funcPtr (tasks' ! j) = funcPtr (tasks ! j)
         \<and> period (tasks' ! j) = period (tasks ! j)
         \<and> offset (tasks' ! j) = offset (tasks ! j)
         \<and> (int j \<noteq> schedulerChosen now tasks count \<longrightarrow> tasks' ! j = tasks ! j))
     \<and> (schedulerChosen now tasks count < 0 \<longrightarrow> tasks' = tasks \<and> w' = w)
     \<and> (0 \<le> schedulerChosen now tasks count \<longrightarrow>
           nat (schedulerChosen now tasks count) < unat count)"
proof (cases "0 \<le> schedulerChosen now tasks count")
  case True
  note rng = chosen_in_range [OF True]
  from True assms rng show ?thesis
    by (auto simp: schedulerRun_def Let_def nth_list_update)
next
  case False
  with assms show ?thesis
    by (simp add: schedulerRun_def Let_def)
qed

text \<open>
  The table of lab 2.1 when the clock reads 100 ms: tasks 1 and 2 are due, task 2 with the
  earlier deadline is executed and its deadline moves from 95 to 145; nothing else
  changes. At 50 ms no task is due and nothing changes.
\<close>

theorem schedulerRun_frame_witness:
  "(\<exists>tasks' w'. schedulerRun 100 100 100 demoTasks 3 [] = Some (tasks', w')
      \<and> w' = [2]
      \<and> tasks' ! 0 = demoTasks ! 0 \<and> tasks' ! 2 = demoTasks ! 2
      \<and> funcPtr (tasks' ! 1) = funcPtr (demoTasks ! 1)
      \<and> period (tasks' ! 1) = 50 \<and> offset (tasks' ! 1) = 5 \<and> nextRun (tasks' ! 1) = 145)
   \<and> schedulerRun 50 50 50 demoTasks 3 [] = Some (demoTasks, [])"
proof -
  have len: "unat (3 :: u8) \<le> length demoTasks" by (simp add: demoTasks_def)
  have run: "schedulerRun 100 100 100 demoTasks 3 []
      = Some (demoTasks[1 := (demoTasks ! 1)\<lparr>nextRun := 145\<rparr>], [2])"
    by (simp add: schedulerRun_def demo_chosen Let_def) (simp add: demoTasks_def)
  from schedulerRun_frame [OF len, of 100 100 100 "[]"] run demo_chosen(1)
  have a: "\<exists>tasks' w'. schedulerRun 100 100 100 demoTasks 3 [] = Some (tasks', w')
      \<and> w' = [2]
      \<and> tasks' ! 0 = demoTasks ! 0 \<and> tasks' ! 2 = demoTasks ! 2
      \<and> funcPtr (tasks' ! 1) = funcPtr (demoTasks ! 1)
      \<and> period (tasks' ! 1) = 50 \<and> offset (tasks' ! 1) = 5 \<and> nextRun (tasks' ! 1) = 145"
    by (simp add: demoTasks_def)
  from schedulerRun_frame [OF len, of 50 50 50 "[]"] demo_chosen(3)
  have b: "schedulerRun 50 50 50 demoTasks 3 [] = Some (demoTasks, [])"
    by auto
  from a b show ?thesis by simp
qed

text \<open>
  C2, amended. For the task that \<open>schedulerRun\<close> executes, the deadline afterwards is
  \<open>nextRun + period\<close>, or \<open>t2 + period\<close> when that sum is strictly behind the clock
  \<open>t1\<close> read again after the action (\<open>t2\<close> being the next reading); both sums are 32-bit
  sums. Provided neither sum exceeds \<open>UINT32_MAX\<close> and the clock has not wrapped between
  the two readings, the deadline is not smaller than it was.
\<close>

theorem schedulerRun_deadline:
  assumes "unat count \<le> length tasks"
    and "0 \<le> schedulerChosen now tasks count"
  shows "\<exists>tasks' w'. schedulerRun now t1 t2 tasks count w = Some (tasks', w')
     \<and> w' = funcPtr (tasks ! nat (schedulerChosen now tasks count)) w
     \<and> nextRun (tasks' ! nat (schedulerChosen now tasks count))
         = (if nextRun (tasks ! nat (schedulerChosen now tasks count))
                 + period (tasks ! nat (schedulerChosen now tasks count)) < t1
            then t2 + period (tasks ! nat (schedulerChosen now tasks count))
            else nextRun (tasks ! nat (schedulerChosen now tasks count))
                 + period (tasks ! nat (schedulerChosen now tasks count)))
     \<and> (unat (nextRun (tasks ! nat (schedulerChosen now tasks count)))
           + unat (period (tasks ! nat (schedulerChosen now tasks count))) < 2 ^ 32
        \<and> unat t2 + unat (period (tasks ! nat (schedulerChosen now tasks count))) < 2 ^ 32
        \<and> t1 \<le> t2
        \<longrightarrow> nextRun (tasks ! nat (schedulerChosen now tasks count))
              \<le> nextRun (tasks' ! nat (schedulerChosen now tasks count)))"
proof -
  define c where "c = nat (schedulerChosen now tasks count)"
  from chosen_in_range [OF assms(2)] assms(1) have c: "c < length tasks"
    by (simp add: c_def)
  define nr where "nr = nextRun (tasks ! c)"
  define p where "p = period (tasks ! c)"
  have mono: "unat nr + unat p < 2 ^ 32 \<and> unat t2 + unat p < 2 ^ 32 \<and> t1 \<le> t2
      \<longrightarrow> nr \<le> (if nr + p < t1 then t2 + p else nr + p)"
  proof (intro impI, elim conjE)
    assume nw: "unat nr + unat p < 2 ^ 32" "unat t2 + unat p < 2 ^ 32" and le: "t1 \<le> t2"
    from nw have s1: "unat (nr + p) = unat nr + unat p" and s2: "unat (t2 + p) = unat t2 + unat p"
      by (simp_all add: unat_word_ariths)
    show "nr \<le> (if nr + p < t1 then t2 + p else nr + p)"
    proof (cases "nr + p < t1")
      case True
      with le s1 s2 show ?thesis
        by (simp add: word_le_nat_alt word_less_nat_alt)
    next
      case False
      with s1 show ?thesis by (simp add: word_le_nat_alt)
    qed
  qed
  have run: "schedulerRun now t1 t2 tasks count w
      = Some (tasks[c := (tasks ! c)\<lparr>nextRun := (if nr + p < t1 then t2 + p else nr + p)\<rparr>],
              funcPtr (tasks ! c) w)"
    using assms by (simp add: schedulerRun_def Let_def c_def nr_def p_def)
  from c have "nextRun (tasks[c := (tasks ! c)\<lparr>nextRun := (if nr + p < t1 then t2 + p else nr + p)\<rparr>] ! c)
      = (if nr + p < t1 then t2 + p else nr + p)"
    by simp
  with run mono show ?thesis
    unfolding c_def [symmetric] nr_def [symmetric] p_def [symmetric] by simp
qed

text \<open>
  On time at 100 ms the deadline of task 2 advances by its period to 145. At 1000 ms the
  advanced deadline 145 is behind the clock read again (1001), and the deadline is set to
  the next reading plus the period, 1052.
\<close>

theorem schedulerRun_deadline_witness:
  "(\<exists>tasks' w'. schedulerRun 100 100 100 demoTasks 3 [] = Some (tasks', w')
      \<and> w' = [2] \<and> nextRun (tasks' ! 1) = 145 \<and> nextRun (demoTasks ! 1) \<le> nextRun (tasks' ! 1))
   \<and> (\<exists>tasks' w'. schedulerRun 1000 1001 1002 demoTasks 3 [] = Some (tasks', w')
      \<and> w' = [2] \<and> nextRun (tasks' ! 1) = 1052 \<and> nextRun (demoTasks ! 1) \<le> nextRun (tasks' ! 1))"
proof -
  have len: "unat (3 :: u8) \<le> length demoTasks" by (simp add: demoTasks_def)
  have c1: "0 \<le> schedulerChosen 100 demoTasks 3" and c2: "0 \<le> schedulerChosen 1000 demoTasks 3"
    by (simp_all add: demo_chosen)
  have t1: "demoTasks ! 1 = \<lparr>funcPtr = (\<lambda>w. w @ [2]), period = 50, offset = 5, nextRun = 95\<rparr>"
    by (simp add: demoTasks_def)
  have n1: "nat (schedulerChosen 100 demoTasks 3) = 1" "nat (schedulerChosen 1000 demoTasks 3) = 1"
    by (simp_all add: demo_chosen)
  from schedulerRun_deadline [OF len c1, of 100 100 "[]"]
  have a: "\<exists>tasks' w'. schedulerRun 100 100 100 demoTasks 3 [] = Some (tasks', w')
      \<and> w' = [2] \<and> nextRun (tasks' ! 1) = 145 \<and> nextRun (demoTasks ! 1) \<le> nextRun (tasks' ! 1)"
    unfolding n1 t1 by simp
  from schedulerRun_deadline [OF len c2, of 1001 1002 "[]"]
  have b: "\<exists>tasks' w'. schedulerRun 1000 1001 1002 demoTasks 3 [] = Some (tasks', w')
      \<and> w' = [2] \<and> nextRun (tasks' ! 1) = 1052 \<and> nextRun (demoTasks ! 1) \<le> nextRun (tasks' ! 1)"
    unfolding n1 t1 by simp
  from a b show ?thesis by simp
qed

text \<open>
  C2 as stated fails at the wrap-around of the 32-bit clock. A task with the period 100
  and the deadline \<open>0xFFFFFFF0\<close> is executed at \<open>0xFFFFFFF5\<close>: the advanced deadline wraps
  to 84, is behind the clock, and is re-anchored to \<open>0xFFFFFFF5 + 100\<close>, which wraps to
  89: smaller than the deadline before the execution.
\<close>

theorem deadline_wraps_counterexample:
  "schedulerChosen 0xFFFFFFF5 wrapTasks 1 = 0
   \<and> schedulerRun 0xFFFFFFF5 0xFFFFFFF5 0xFFFFFFF5 wrapTasks 1 []
       = Some ([\<lparr>funcPtr = funcPtr (wrapTasks ! 0), period = 100, offset = 0, nextRun = 89\<rparr>], [1])
   \<and> nextRun (wrapTasks ! 0) = 0xFFFFFFF0
   \<and> (89 :: u32) < nextRun (wrapTasks ! 0)"
  by (simp add: schedulerRun_def schedulerChosen_def schedulerScan_def scanStep_def wrapTasks_def
      int8_of_uint8_def Let_def)

section \<open>Earliest deadline first: what the scan selects\<close>

lemma u32_lt_max:
  fixes x :: u32
  assumes "x \<noteq> UINT32_MAX"
  shows "x < UINT32_MAX"
proof -
  have m: "UINT32_MAX = (- 1 :: u32)" by simp
  from assms show ?thesis
    unfolding m by (simp only: word_order.not_eq_extremum)
qed

lemma scan_edf:
  assumes "\<forall>i<n. nextRun (tasks ! i) \<le> now \<longrightarrow> nextRun (tasks ! i) \<noteq> UINT32_MAX"
  shows "if \<exists>i<n. nextRun (tasks ! i) \<le> now
         then \<exists>k. isEarliestDue now tasks n k \<and>
                foldl (scanStep now tasks) (-1, UINT32_MAX) [0..<n]
                  = (int8_of_uint8 k, nextRun (tasks ! k))
         else foldl (scanStep now tasks) (-1, UINT32_MAX) [0..<n] = (-1, UINT32_MAX)"
  using assms
proof (induction n)
  case 0
  then show ?case by simp
next
  case (Suc n)
  let ?r = "foldl (scanStep now tasks) (-1, UINT32_MAX) [0..<n]"
  from Suc.prems have pre: "\<forall>i<n. nextRun (tasks ! i) \<le> now \<longrightarrow> nextRun (tasks ! i) \<noteq> UINT32_MAX"
    by simp
  note ih = Suc.IH [OF pre]
  show ?case
  proof (cases "nextRun (tasks ! n) \<le> now")
    case notdue: False
    then have step: "scanStep now tasks ?r n = ?r" by (simp add: scanStep_def)
    have ex: "(\<exists>i<Suc n. nextRun (tasks ! i) \<le> now) = (\<exists>i<n. nextRun (tasks ! i) \<le> now)"
      using notdue by (auto simp: less_Suc_eq)
    have same: "isEarliestDue now tasks (Suc n) k = isEarliestDue now tasks n k" for k
      using notdue by (auto simp: isEarliestDue_def less_Suc_eq)
    from ih show ?thesis
      unfolding scan_upto_Suc step ex same .
  next
    case due: True
    with Suc.prems have "nextRun (tasks ! n) \<noteq> UINT32_MAX" by simp
    then have ltmax: "nextRun (tasks ! n) < UINT32_MAX" by (rule u32_lt_max)
    have ex: "\<exists>i<Suc n. nextRun (tasks ! i) \<le> now" using due by auto
    show ?thesis
    proof (cases "\<exists>i<n. nextRun (tasks ! i) \<le> now")
      case False
      with ih have r: "?r = (-1, UINT32_MAX)" by simp
      from False due have "isEarliestDue now tasks (Suc n) n"
        by (auto simp: isEarliestDue_def less_Suc_eq)
      moreover have "scanStep now tasks ?r n = (int8_of_uint8 n, nextRun (tasks ! n))"
        using due ltmax by (simp add: r scanStep_def)
      ultimately show ?thesis using ex unfolding scan_upto_Suc by auto
    next
      case True
      with ih obtain k where k: "isEarliestDue now tasks n k"
        and r: "?r = (int8_of_uint8 k, nextRun (tasks ! k))" by auto
      show ?thesis
      proof (cases "nextRun (tasks ! n) < nextRun (tasks ! k)")
        case lt: True
        then have "scanStep now tasks ?r n = (int8_of_uint8 n, nextRun (tasks ! n))"
          using due by (simp add: r scanStep_def)
        moreover from k lt due have "isEarliestDue now tasks (Suc n) n"
          by (fastforce simp: isEarliestDue_def less_Suc_eq)
        ultimately show ?thesis using ex unfolding scan_upto_Suc by auto
      next
        case ge: False
        then have "scanStep now tasks ?r n = ?r"
          by (simp add: r scanStep_def)
        moreover from k ge have "isEarliestDue now tasks (Suc n) k"
          by (auto simp: isEarliestDue_def less_Suc_eq)
        ultimately show ?thesis using ex r unfolding scan_upto_Suc by auto
      qed
    qed
  qed
qed

lemma isEarliestDue_unique:
  "isEarliestDue now tasks n k \<Longrightarrow> isEarliestDue now tasks n k' \<Longrightarrow> k = k'"
  unfolding isEarliestDue_def
  by (metis linorder_neqE_nat not_less)

text \<open>
  Where every due task has a deadline below \<open>UINT32_MAX\<close> and \<open>count\<close> is at most 128,
  \<open>schedulerRun\<close> executes the earliest due task, the first in the array among equals,
  exactly once and moves its deadline; it does nothing when no task is due.
\<close>

lemma schedulerRun_edf:
  assumes len: "unat count \<le> length tasks"
    and small: "unat count \<le> 128"
    and nomax: "\<forall>i<unat count. nextRun (tasks ! i) \<le> now \<longrightarrow> nextRun (tasks ! i) \<noteq> UINT32_MAX"
  shows "if \<exists>i<unat count. nextRun (tasks ! i) \<le> now
         then \<exists>k. isEarliestDue now tasks (unat count) k
                \<and> schedulerChosen now tasks count = int k
                \<and> schedulerRun now t1 t2 tasks count w
                    = Some (tasks[k := (tasks ! k)\<lparr>nextRun :=
                               (if nextRun (tasks ! k) + period (tasks ! k) < t1
                                then t2 + period (tasks ! k)
                                else nextRun (tasks ! k) + period (tasks ! k))\<rparr>],
                            funcPtr (tasks ! k) w)
         else schedulerChosen now tasks count = -1
              \<and> schedulerRun now t1 t2 tasks count w = Some (tasks, w)"
proof (cases "\<exists>i<unat count. nextRun (tasks ! i) \<le> now")
  case True
  with scan_edf [OF nomax] obtain k where k: "isEarliestDue now tasks (unat count) k"
    and r: "schedulerScan now tasks count = (int8_of_uint8 k, nextRun (tasks ! k))"
    by (auto simp: schedulerScan_def)
  from k small have "k < 128" by (simp add: isEarliestDue_def)
  with r have ch: "schedulerChosen now tasks count = int k"
    by (simp add: schedulerChosen_def int8_of_uint8_def)
  with len have "schedulerRun now t1 t2 tasks count w
      = Some (tasks[k := (tasks ! k)\<lparr>nextRun :=
                 (if nextRun (tasks ! k) + period (tasks ! k) < t1
                  then t2 + period (tasks ! k)
                  else nextRun (tasks ! k) + period (tasks ! k))\<rparr>],
              funcPtr (tasks ! k) w)"
    by (simp add: schedulerRun_def Let_def)
  with True k ch show ?thesis by auto
next
  case False
  with scan_edf [OF nomax] have "schedulerScan now tasks count = (-1, UINT32_MAX)"
    by (auto simp: schedulerScan_def)
  then have ch: "schedulerChosen now tasks count = -1" by (simp add: schedulerChosen_def)
  with len have "schedulerRun now t1 t2 tasks count w = Some (tasks, w)"
    by (simp add: schedulerRun_def Let_def)
  with False ch show ?thesis by simp
qed

text \<open>
  The index \<open>chosen\<close> is an \<open>int8_t\<close>: an earliest due task at an index from 128 on is
  selected with a negative index, and not executed.
\<close>

lemma schedulerRun_skips_high_index:
  assumes len: "unat count \<le> length tasks"
    and nomax: "\<forall>i<unat count. nextRun (tasks ! i) \<le> now \<longrightarrow> nextRun (tasks ! i) \<noteq> UINT32_MAX"
    and k: "isEarliestDue now tasks (unat count) k"
    and high: "128 \<le> k"
  shows "schedulerRun now t1 t2 tasks count w = Some (tasks, w)"
proof -
  from k have due: "\<exists>i<unat count. nextRun (tasks ! i) \<le> now"
    by (auto simp: isEarliestDue_def)
  with scan_edf [OF nomax] obtain k' where k': "isEarliestDue now tasks (unat count) k'"
    and r: "schedulerScan now tasks count = (int8_of_uint8 k', nextRun (tasks ! k'))"
    by (auto simp: schedulerScan_def)
  from isEarliestDue_unique [OF k k'] have "k' = k" by simp
  moreover from k have "k < 256"
    using unsigned_less [of count, where ?'a = nat] by (simp add: isEarliestDue_def)
  ultimately have "schedulerChosen now tasks count < 0"
    using high r by (simp add: schedulerChosen_def int8_of_uint8_def)
  with len show ?thesis by (simp add: schedulerRun_def Let_def)
qed

lemma sentinel_is_earliest_due: "isEarliestDue UINT32_MAX sentinelTasks 1 0"
  by (simp add: isEarliestDue_def sentinelTasks_def)

text \<open>
  C1 does not hold of the code. The scan starts from \<open>earliest = UINT32_MAX\<close> and
  selects a due task only if its deadline is strictly smaller: a single task whose
  deadline is \<open>UINT32_MAX\<close> is due when the clock reads \<open>UINT32_MAX\<close>, it is the
  earliest due task, and \<open>schedulerRun\<close> selects nothing (\<open>chosen = -1\<close>) and executes
  nothing.
\<close>

theorem due_at_UINT32_MAX_not_run:
  "nextRun (sentinelTasks ! 0) \<le> UINT32_MAX
   \<and> schedulerChosen UINT32_MAX sentinelTasks 1 = -1
   \<and> schedulerRun UINT32_MAX UINT32_MAX UINT32_MAX sentinelTasks 1 [] = Some (sentinelTasks, [])"
  by (simp add: schedulerRun_def schedulerChosen_def schedulerScan_def scanStep_def
      sentinelTasks_def int8_of_uint8_def Let_def)

end
